theory Spec2Isabelle
  imports Main "HOL-Library.AList" "HOL-Library.Sublist"
begin


section \<open>Errors as values\<close>

text \<open>
  Every exception the post-compose pipeline of \<^verbatim>\<open>build_scripts/post_actions.py\<close> can
  raise is a value of \<open>error\<close>; an operation returns \<open>error + 'a\<close> with \<open>Inl\<close> for the raise.
  An exception is never caught in the script, so the first \<open>Inl\<close> ends the run.
\<close>

datatype error =
    FileNotFoundError | FileExistsError | NotADirectoryError | IsADirectoryError
  | OSError | SameFileError | KeyError | TypeError | ValueError | NotImplementedError
  | JSONDecodeError | ParsingError | NoSectionError | NoOptionError
  | HTTPError | CalledProcessError

definition bindE :: "error + 'a \<Rightarrow> ('a \<Rightarrow> error + 'b) \<Rightarrow> error + 'b" where
  "bindE m f = (case m of Inl e \<Rightarrow> Inl e | Inr x \<Rightarrow> f x)"

section \<open>Pure paths (pathlib)\<close>

text \<open>
  A \<^verbatim>\<open>pathlib.PurePosixPath\<close>: the anchor (empty, one slash, or two slashes) and the
  components. Parsing splits at slashes and drops empty components and single dots;
  a component of two dots is kept as it is, as pathlib keeps it.
\<close>

record ppath =
  anchor :: string
  parts :: "string list"

fun split_slash :: "string \<Rightarrow> string list" where
  "split_slash [] = [[]]"
| "split_slash (c # cs) =
     (if c = CHR ''/'' then [] # split_slash cs
      else (case split_slash cs of [] \<Rightarrow> [[c]] | x # xs \<Rightarrow> (c # x) # xs))"

definition is_component :: "string \<Rightarrow> bool" where
  "is_component c = (c \<noteq> [] \<and> c \<noteq> ''.'')"

definition Path :: "string \<Rightarrow> ppath" where
  "Path s =
     \<lparr> anchor = (if take 2 s = ''//'' \<and> take 3 s \<noteq> ''///'' then ''//''
                else if take 1 s = ''/'' then ''/'' else []),
       parts = filter is_component (split_slash s) \<rparr>"

fun joinpath :: "ppath \<Rightarrow> string list \<Rightarrow> ppath" where
  "joinpath p [] = p"
| "joinpath p (s # ss) =
     (let q = Path s
      in joinpath (if anchor q \<noteq> [] then q else p\<lparr>parts := parts p @ parts q\<rparr>) ss)"

fun join_slash :: "string list \<Rightarrow> string" where
  "join_slash [] = []"
| "join_slash [x] = x"
| "join_slash (x # y # ys) = x @ ''/'' @ join_slash (y # ys)"

definition path_str :: "ppath \<Rightarrow> string" where
  "path_str p =
     (if parts p = [] then (if anchor p = [] then ''.'' else anchor p)
      else anchor p @ join_slash (parts p))"

definition name :: "ppath \<Rightarrow> string" where
  "name p = (if parts p = [] then [] else last (parts p))"

definition parent :: "ppath \<Rightarrow> ppath" where
  "parent p = p\<lparr>parts := butlast (parts p)\<rparr>"

definition startswith :: "string \<Rightarrow> string \<Rightarrow> bool" where
  "startswith s pre = prefix pre s"





section \<open>The canonical path mapping\<close>

text \<open>
  The values of \<^verbatim>\<open>PATH_DICTIONARY\<close> are format strings whose only field is
  \<^verbatim>\<open>{arch}\<close>; \<open>format_arch\<close> is \<^verbatim>\<open>str.format(arch=arch)\<close> on them. The dictionary is a
  \<^verbatim>\<open>defaultdict\<close> whose default is \<^verbatim>\<open>None\<close>: a missing key reads as \<open>None\<close> (the
  key the read inserts is never observed).
\<close>

datatype piece = Lit string | ArchField

fun format_arch :: "piece list \<Rightarrow> string \<Rightarrow> string" where
  "format_arch [] arch = []"
| "format_arch (Lit s # ps) arch = s @ format_arch ps arch"
| "format_arch (ArchField # ps) arch = arch @ format_arch ps arch"

definition PATH_DICTIONARY :: "(string \<times> piece list) list" where
  "PATH_DICTIONARY =
     [ (''debug'', [Lit ''debug/'', ArchField]),
       (''source'', [Lit ''Source'']),
       (''source_packages'', [Lit ''Source/Packages'']),
       (''source_repository'', [Lit ''Source'']),
       (''source_tree'', [Lit ''Source'']),
       (''debug_packages'', [Lit ''debug/'', ArchField, Lit ''/Packages'']),
       (''debug_repository'', [Lit ''debug/'', ArchField]),
       (''debug_tree'', [Lit ''debug/'', ArchField]) ]"

section \<open>JSON documents\<close>

text \<open>
  What \<^verbatim>\<open>json.load\<close> returns. An object keeps the order of its keys. The manifests
  are indexed as nested objects; a value of another kind where the code indexes or
  iterates an object raises in Python and is \<open>TypeError\<close> here (arrays and strings in
  such a place are not iterated by the model).
\<close>

datatype json =
    JNull | JBool bool | JNum int | JStr string
  | JArr "json list" | JObj "(string \<times> json) list"

fun jitems :: "json \<Rightarrow> error + (string \<times> json) list" where
  "jitems (JObj kvs) = Inr kvs"
| "jitems _ = Inl TypeError"

fun jget :: "string \<Rightarrow> json \<Rightarrow> error + json" where
  "jget k (JObj kvs) = (case map_of kvs k of None \<Rightarrow> Inl KeyError | Some v \<Rightarrow> Inr v)"
| "jget k _ = Inl TypeError"

fun jset :: "string \<Rightarrow> json \<Rightarrow> json \<Rightarrow> json" where
  "jset k v (JObj kvs) = JObj (AList.update k v kvs)"
| "jset k v j = j"

fun jstr :: "json \<Rightarrow> error + string" where
  "jstr (JStr s) = Inr s"
| "jstr _ = Inl TypeError"

text \<open>A loop over the items of a dictionary that replaces each value in place.\<close>

fun map_items ::
  "(string \<Rightarrow> json \<Rightarrow> error + json) \<Rightarrow> (string \<times> json) list \<Rightarrow> error + (string \<times> json) list"
where
  "map_items f [] = Inr []"
| "map_items f ((k, v) # kvs) =
     bindE (f k v) (\<lambda>v'. bindE (map_items f kvs) (\<lambda>kvs'. Inr ((k, v') # kvs')))"

text \<open>
  \<^verbatim>\<open>PATH_DICTIONARY[key]\<close> for a key read from a manifest: a string is looked up,
  another hashable value is a missing key, an array or object is unhashable.
\<close>

fun path_dictionary_get :: "json \<Rightarrow> error + piece list option" where
  "path_dictionary_get (JStr k) = Inr (map_of PATH_DICTIONARY k)"
| "path_dictionary_get (JArr _) = Inl TypeError"
| "path_dictionary_get (JObj _) = Inl TypeError"
| "path_dictionary_get _ = Inr None"

subsection \<open>The rpms manifest\<close>

definition rpms_artifact :: "string \<Rightarrow> string \<Rightarrow> json \<Rightarrow> error + json" where
  "rpms_artifact variant arch artifact_data =
     bindE (jget ''category'' artifact_data) (\<lambda>category.
     bindE (path_dictionary_get category) (\<lambda>path_suffix.
       case path_suffix of
         None \<Rightarrow> Inr artifact_data
       | Some template \<Rightarrow>
           let path_suffix = format_arch template arch
           in bindE (jget ''path'' artifact_data) (\<lambda>p.
              bindE (jstr p) (\<lambda>s.
                let artifact_path = Path s
                in Inr (jset ''path''
                     (JStr (path_str (joinpath (Path variant)
                        [path_suffix, name (parent artifact_path), name artifact_path])))
                     artifact_data)))))"

definition rpms_srpm :: "string \<Rightarrow> string \<Rightarrow> json \<Rightarrow> error + json" where
  "rpms_srpm variant arch srpm_data =
     bindE (jitems srpm_data) (\<lambda>artifacts.
     bindE (map_items (\<lambda>artifact artifact_data. rpms_artifact variant arch artifact_data)
              artifacts) (\<lambda>artifacts'.
     Inr (JObj artifacts')))"

definition rpms_arch :: "string \<Rightarrow> string \<Rightarrow> json \<Rightarrow> error + json" where
  "rpms_arch variant arch arch_data =
     bindE (jitems arch_data) (\<lambda>srpms.
     bindE (map_items (\<lambda>srpm srpm_data. rpms_srpm variant arch srpm_data) srpms) (\<lambda>srpms'.
     Inr (JObj srpms')))"

definition rpms_variant :: "string \<Rightarrow> json \<Rightarrow> error + json" where
  "rpms_variant variant variant_data =
     (if variant = ''Minimal'' then Inr variant_data
      else bindE (jitems variant_data) (\<lambda>arches.
           bindE (map_items (\<lambda>arch arch_data. rpms_arch variant arch arch_data) arches)
             (\<lambda>arches'.
           Inr (JObj arches'))))"

text \<open>
  The whole rewriting of the loaded document: the loop over the variants, then, before
  the dump, the deletion of the key \<^verbatim>\<open>Minimal\<close>.
\<close>

definition rpms_content :: "json \<Rightarrow> error + json" where
  "rpms_content content =
     bindE (jget ''payload'' content) (\<lambda>payload.
     bindE (jget ''rpms'' payload) (\<lambda>rpms.
     bindE (jitems rpms) (\<lambda>variants.
     bindE (map_items rpms_variant variants) (\<lambda>variants'.
     Inr (jset ''payload''
            (jset ''rpms'' (JObj (AList.delete ''Minimal'' variants')) payload) content)))))"

subsection \<open>The composeinfo manifest\<close>

definition composeinfo_path_type :: "string \<Rightarrow> string \<Rightarrow> json \<Rightarrow> error + json" where
  "composeinfo_path_type variant path_type path_data =
     bindE (jitems path_data) (\<lambda>arches.
     bindE (map_items (\<lambda>arch path.
              case map_of PATH_DICTIONARY path_type of
                None \<Rightarrow> Inr path
              | Some template \<Rightarrow>
                  Inr (JStr (path_str (joinpath (Path variant) [format_arch template arch]))))
              arches) (\<lambda>arches'.
     Inr (JObj arches')))"

definition composeinfo_variant :: "string \<Rightarrow> json \<Rightarrow> error + json" where
  "composeinfo_variant variant variant_data =
     bindE (jget ''paths'' variant_data) (\<lambda>variant_paths.
       if variant = ''Minimal'' then Inr variant_data
       else bindE (jitems variant_paths) (\<lambda>path_types.
            bindE (map_items (\<lambda>path_type path_data.
                     composeinfo_path_type variant path_type path_data) path_types)
              (\<lambda>path_types'.
            Inr (jset ''paths'' (JObj path_types') variant_data))))"

definition composeinfo_content :: "json \<Rightarrow> error + json" where
  "composeinfo_content content =
     bindE (jget ''payload'' content) (\<lambda>payload.
     bindE (jget ''variants'' payload) (\<lambda>variants_json.
     bindE (jitems variants_json) (\<lambda>variants.
     bindE (map_items composeinfo_variant variants) (\<lambda>variants'.
     Inr (jset ''payload''
            (jset ''variants'' (JObj (AList.delete ''Minimal'' variants')) payload)
            content)))))"

subsection \<open>The images manifest\<close>

text \<open>
  \<^verbatim>\<open>dict(image, path=...)\<close> copies the image entry with its \<^verbatim>\<open>path\<close> replaced. The
  entries of one architecture are a list. No variant is skipped and none is deleted.
\<close>

fun map_list :: "(json \<Rightarrow> error + json) \<Rightarrow> json list \<Rightarrow> error + json list" where
  "map_list f [] = Inr []"
| "map_list f (x # xs) = bindE (f x) (\<lambda>y. bindE (map_list f xs) (\<lambda>ys. Inr (y # ys)))"

fun jlist :: "json \<Rightarrow> error + json list" where
  "jlist (JArr xs) = Inr xs"
| "jlist _ = Inl TypeError"

definition images_image :: "string \<Rightarrow> json \<Rightarrow> error + json" where
  "images_image arch img =
     bindE (jitems img) (\<lambda>fields.
     bindE (jget ''path'' img) (\<lambda>p.
     bindE (jstr p) (\<lambda>s.
     Inr (jset ''path'' (JStr (path_str (joinpath (Path ''isos'') [arch, name (Path s)])))
            img))))"

definition images_variant :: "string \<Rightarrow> json \<Rightarrow> error + json" where
  "images_variant variant variant_data =
     bindE (jitems variant_data) (\<lambda>arches.
     bindE (map_items (\<lambda>arch images_list.
              bindE (jlist images_list) (\<lambda>images.
              bindE (map_list (images_image arch) images) (\<lambda>images'.
              Inr (JArr images')))) arches) (\<lambda>arches'.
     Inr (JObj arches')))"

definition images_content :: "json \<Rightarrow> error + json" where
  "images_content content =
     bindE (jget ''payload'' content) (\<lambda>payload.
     bindE (jget ''images'' payload) (\<lambda>images.
     bindE (jitems images) (\<lambda>variants.
     bindE (map_items images_variant variants) (\<lambda>variants'.
     Inr (jset ''payload'' (jset ''images'' (JObj variants') payload) content)))))"


section \<open>Decimal numerals\<close>

text \<open>The text of an integer, as \<^verbatim>\<open>str\<close> and an f-string give it.\<close>

definition digit :: "nat \<Rightarrow> char" where
  "digit d = ''0123456789'' ! d"

function str_nat :: "nat \<Rightarrow> string" where
  "str_nat n = (if n < 10 then [digit n] else str_nat (n div 10) @ [digit (n mod 10)])"
  by pat_completeness auto
termination
  by (relation "measure id") auto

declare str_nat.simps [simp del]

definition str_int :: "int \<Rightarrow> string" where
  "str_int i = (if i < 0 then ''-'' @ str_nat (nat (- i)) else str_nat (nat i))"


section \<open>The file system\<close>

text \<open>
  A directory tree with inodes: a regular file is a name for an inode, and the contents
  of the inodes are held apart, so that two names of one inode (hard links) share their
  content. A directory lists its entries in the order a scan returns them.

  A content is the text of a file, or the document the file holds when its text is a
  JSON document or a sectioned key-value file; the parsers of the standard library are
  taken as the passage from the text to that document.

  \<open>walk\<close> looks a path up in the tree as it is written, through directories only, and
  \<open>resolve\<close> is the path resolution of the kernel, which follows the symbolic links on
  the way and takes the two dots for the directory above. \<^verbatim>\<open>Path.exists\<close>,
  \<^verbatim>\<open>Path.is_dir\<close> and the directory scans of \<^verbatim>\<open>Path.glob\<close> resolve their paths. The
  operations that read, create, move or remove an entry act on the path as it is written:
  where that path would have to pass through a symbolic link, or to open or copy one, the
  operation is an error here, so that a run of the model that returns never went through
  a link with one of them.
\<close>

type_synonym inode = nat

datatype node = File inode | Dir "(string \<times> node) list" | Symlink string

type_synonym ini = "(string \<times> (string \<times> string) list) list"

datatype content = Text string | Json json | Ini ini

datatype log_entry = Info string | Warning string

record world =
  tree :: node
  store :: "inode \<Rightarrow> content"
  next_ino :: inode
  cwd :: "string list"
  logs :: "log_entry list"
  calls :: "string list"

definition logging_info :: "string \<Rightarrow> world \<Rightarrow> world" where
  "logging_info msg w = w\<lparr>logs := logs w @ [Info msg]\<rparr>"

definition logging_warning :: "string \<Rightarrow> world \<Rightarrow> world" where
  "logging_warning msg w = w\<lparr>logs := logs w @ [Warning msg]\<rparr>"

definition fs_path :: "world \<Rightarrow> ppath \<Rightarrow> string list" where
  "fs_path w p = (if anchor p = [] then cwd w @ parts p else parts p)"

fun walk :: "node \<Rightarrow> string list \<Rightarrow> node option" where
  "walk n [] = Some n"
| "walk (Dir es) (c # cs) = (case map_of es c of None \<Rightarrow> None | Some n \<Rightarrow> walk n cs)"
| "walk _ (c # cs) = None"

text \<open>
  \<open>alter p v t\<close> sets the entry at the path \<open>p\<close> of the tree \<open>t\<close> to the node \<open>v\<close>, or
  removes it when \<open>v\<close> is \<open>None\<close>; the directory that holds the entry must exist.
\<close>

fun alter :: "string list \<Rightarrow> node option \<Rightarrow> node \<Rightarrow> node" where
  "alter [] v t = (case v of None \<Rightarrow> t | Some n \<Rightarrow> n)"
| "alter [c] v (Dir es) =
     Dir (case v of None \<Rightarrow> AList.delete c es | Some n \<Rightarrow> AList.update c n es)"
| "alter (c # cs) v (Dir es) =
     (case map_of es c of
        None \<Rightarrow> Dir es
      | Some n \<Rightarrow> Dir (AList.update c (alter cs v n) es))"
| "alter (c # cs) v t = t"

text \<open>
  Path resolution from the root. \<open>cur\<close> is the directory reached so far, written without
  links, and the components still to be resolved follow. A symbolic link is replaced by
  its target, from the root when the target is absolute and from the directory that holds
  the link otherwise; an empty target resolves to nothing. The directories of the tree do
  not list their entry of two dots: a component of two dots that the directory does not
  list is the directory above (the root is above itself). The kernel follows at most forty
  links in one resolution before it gives up (\<^verbatim>\<open>ELOOP\<close>).
\<close>

fun resolve :: "nat \<Rightarrow> node \<Rightarrow> string list \<Rightarrow> string list \<Rightarrow> string list option" where
  "resolve fuel t cur [] = Some cur"
| "resolve fuel t cur (c # cs) =
     (case walk t (cur @ [c]) of
        Some (Symlink target) \<Rightarrow>
          if fuel = 0 \<or> target = [] then None
          else resolve (fuel - 1) t (if anchor (Path target) = [] then cur else [])
                 (parts (Path target) @ cs)
      | Some n \<Rightarrow> resolve fuel t (cur @ [c]) cs
      | None \<Rightarrow>
          if c = ''..''
          then (case walk t cur of
                  Some (Dir es) \<Rightarrow> resolve fuel t (butlast cur) cs
                | _ \<Rightarrow> None)
          else None)"

definition SYMLOOP_MAX :: nat where
  "SYMLOOP_MAX = 40"

definition realpath :: "world \<Rightarrow> ppath \<Rightarrow> string list option" where
  "realpath w p = resolve SYMLOOP_MAX (tree w) [] (fs_path w p)"

text \<open>\<^verbatim>\<open>Path.exists\<close> and \<^verbatim>\<open>Path.is_dir\<close>: false where the resolution fails.\<close>

definition path_exists :: "world \<Rightarrow> ppath \<Rightarrow> bool" where
  "path_exists w p = (realpath w p \<noteq> None)"

definition is_dir :: "world \<Rightarrow> ppath \<Rightarrow> bool" where
  "is_dir w p =
     (case realpath w p of
        None \<Rightarrow> False
      | Some q \<Rightarrow> (case walk (tree w) q of Some (Dir es) \<Rightarrow> True | _ \<Rightarrow> False))"

subsection \<open>Reading and writing files\<close>

definition read_file :: "world \<Rightarrow> ppath \<Rightarrow> error + content" where
  "read_file w p =
     (case walk (tree w) (fs_path w p) of
        None \<Rightarrow> Inl FileNotFoundError
      | Some (File i) \<Rightarrow> Inr (store w i)
      | Some (Dir es) \<Rightarrow> Inl IsADirectoryError
      | Some (Symlink target) \<Rightarrow> Inl OSError)"

definition create_file :: "world \<Rightarrow> string list \<Rightarrow> content \<Rightarrow> error + world" where
  "create_file w q c =
     (case walk (tree w) (butlast q) of
        None \<Rightarrow> Inl FileNotFoundError
      | Some (Dir es) \<Rightarrow>
          Inr (w\<lparr> tree := alter q (Some (File (next_ino w))) (tree w),
                  store := (store w)(next_ino w := c),
                  next_ino := Suc (next_ino w) \<rparr>)
      | Some n \<Rightarrow> Inl NotADirectoryError)"

text \<open>\<^verbatim>\<open>open(path, 'w')\<close> followed by one write: the inode keeps its names.\<close>

definition write_file :: "world \<Rightarrow> ppath \<Rightarrow> content \<Rightarrow> error + world" where
  "write_file w p c =
     (case walk (tree w) (fs_path w p) of
        None \<Rightarrow> create_file w (fs_path w p) c
      | Some (File i) \<Rightarrow> Inr (w\<lparr>store := (store w)(i := c)\<rparr>)
      | Some (Dir es) \<Rightarrow> Inl IsADirectoryError
      | Some (Symlink target) \<Rightarrow> Inl OSError)"

definition json_load :: "world \<Rightarrow> ppath \<Rightarrow> error + json" where
  "json_load w p =
     bindE (read_file w p) (\<lambda>c. case c of Json j \<Rightarrow> Inr j | _ \<Rightarrow> Inl JSONDecodeError)"


subsection \<open>Renaming, removing and creating directories\<close>

text \<open>
  \<^verbatim>\<open>os.rename\<close>: the source must exist; the directory that is to hold the target must
  exist; a directory replaces only an empty directory, another entry replaces only an
  entry that is not a directory; a directory cannot be moved below itself.
\<close>

fun rename_check :: "node \<Rightarrow> node option \<Rightarrow> error option" where
  "rename_check n None = None"
| "rename_check (Dir es) (Some (Dir [])) = None"
| "rename_check (Dir es) (Some (Dir (d # ds))) = Some OSError"
| "rename_check (Dir es) (Some d) = Some NotADirectoryError"
| "rename_check n (Some (Dir ds)) = Some IsADirectoryError"
| "rename_check n (Some d) = None"

definition rename_node :: "string list \<Rightarrow> string list \<Rightarrow> node \<Rightarrow> error + node" where
  "rename_node src dst t =
     (case walk t src of
        None \<Rightarrow> Inl FileNotFoundError
      | Some n \<Rightarrow>
          if src = dst then Inr t
          else if src = [] \<or> dst = [] then Inl OSError
          else (case walk t (butlast dst) of
                  None \<Rightarrow> Inl FileNotFoundError
                | Some (Dir es) \<Rightarrow>
                    if prefix src dst then Inl OSError
                    else (case rename_check n (walk t dst) of
                            Some e \<Rightarrow> Inl e
                          | None \<Rightarrow> Inr (alter dst (Some n) (alter src None t)))
                | Some d \<Rightarrow> Inl NotADirectoryError))"

definition rename :: "world \<Rightarrow> ppath \<Rightarrow> ppath \<Rightarrow> error + world" where
  "rename w src dst =
     bindE (rename_node (fs_path w src) (fs_path w dst) (tree w)) (\<lambda>t. Inr (w\<lparr>tree := t\<rparr>))"


text \<open>\<^verbatim>\<open>os.makedirs(path, exist_ok=True)\<close>.\<close>

fun makedirs_node :: "string list \<Rightarrow> node \<Rightarrow> error + node" where
  "makedirs_node [] (Dir es) = Inr (Dir es)"
| "makedirs_node [] n = Inl FileExistsError"
| "makedirs_node (c # cs) (Dir es) =
     (case map_of es c of
        None \<Rightarrow> bindE (makedirs_node cs (Dir [])) (\<lambda>n. Inr (Dir (AList.update c n es)))
      | Some n \<Rightarrow> bindE (makedirs_node cs n) (\<lambda>n'. Inr (Dir (AList.update c n' es))))"
| "makedirs_node (c # cs) n = Inl NotADirectoryError"


subsection \<open>Symbolic links\<close>

definition readlink :: "world \<Rightarrow> ppath \<Rightarrow> error + string" where
  "readlink w p =
     (case walk (tree w) (fs_path w p) of
        None \<Rightarrow> Inl FileNotFoundError
      | Some (Symlink target) \<Rightarrow> Inr target
      | Some n \<Rightarrow> Inl OSError)"

text \<open>\<^verbatim>\<open>os.unlink\<close> and \<^verbatim>\<open>os.remove\<close> remove a name that is not a directory.\<close>

definition unlink :: "world \<Rightarrow> ppath \<Rightarrow> error + world" where
  "unlink w p =
     (case walk (tree w) (fs_path w p) of
        None \<Rightarrow> Inl FileNotFoundError
      | Some (Dir es) \<Rightarrow> Inl IsADirectoryError
      | Some n \<Rightarrow> Inr (w\<lparr>tree := alter (fs_path w p) None (tree w)\<rparr>))"

text \<open>\<^verbatim>\<open>os.symlink(target, path)\<close> creates a link at \<open>path\<close> that holds the text \<open>target\<close>.\<close>

definition symlink :: "world \<Rightarrow> string \<Rightarrow> ppath \<Rightarrow> error + world" where
  "symlink w target p =
     (case walk (tree w) (fs_path w p) of
        Some n \<Rightarrow> Inl FileExistsError
      | None \<Rightarrow>
          (case walk (tree w) (butlast (fs_path w p)) of
             None \<Rightarrow> Inl FileNotFoundError
           | Some (Dir es) \<Rightarrow>
               Inr (w\<lparr>tree := alter (fs_path w p) (Some (Symlink target)) (tree w)\<rparr>)
           | Some n \<Rightarrow> Inl NotADirectoryError))"

section \<open>Globbing\<close>

text \<open>
  \<^verbatim>\<open>fnmatch\<close> on one path component, as \<^verbatim>\<open>Path.glob\<close> applies it: a star matches any
  text, a question mark one character, a bracket expression one character of the set
  (or, after an exclamation mark, one character not of it); a bracket that is never
  closed is an ordinary character. The match is case-sensitive and a leading dot is
  not special.
\<close>

fun scan_class :: "string \<Rightarrow> string \<Rightarrow> (string \<times> string) option" where
  "scan_class acc [] = None"
| "scan_class acc (c # cs) =
     (if c = CHR '']'' then Some (rev acc, cs) else scan_class (c # acc) cs)"

definition class_split :: "string \<Rightarrow> (bool \<times> string \<times> string) option" where
  "class_split s =
     (let negated = (take 1 s = ''!'');
          s1 = (if negated then drop 1 s else s)
      in case (if take 1 s1 = '']'' then scan_class '']'' (drop 1 s1) else scan_class [] s1) of
           None \<Rightarrow> None
         | Some (stuff, rest) \<Rightarrow> Some (negated, stuff, rest))"

fun class_items :: "string \<Rightarrow> (char \<times> char) list" where
  "class_items (a # m # b # cs) =
     (if m = CHR ''-'' then (a, b) # class_items cs else (a, a) # class_items (m # b # cs))"
| "class_items (a # cs) = (a, a) # class_items cs"
| "class_items [] = []"

definition in_class :: "string \<Rightarrow> char \<Rightarrow> bool" where
  "in_class stuff c =
     list_ex (\<lambda>(a, b). (of_char a :: nat) \<le> of_char c \<and> (of_char c :: nat) \<le> of_char b)
       (class_items stuff)"

function fnmatch :: "string \<Rightarrow> string \<Rightarrow> bool" where
  "fnmatch [] [] = True"
| "fnmatch [] (c # cs) = False"
| "fnmatch (p # ps) [] = (p = CHR ''*'' \<and> fnmatch ps [])"
| "fnmatch (p # ps) (c # cs) =
     (if p = CHR ''*'' then fnmatch ps (c # cs) \<or> fnmatch (p # ps) cs
      else if p = CHR ''?'' then fnmatch ps cs
      else if p = CHR ''['' then
        (case class_split ps of
           None \<Rightarrow> c = CHR ''['' \<and> fnmatch ps cs
         | Some (negated, stuff, rest) \<Rightarrow> in_class stuff c \<noteq> negated \<and> fnmatch rest cs)
      else p = c \<and> fnmatch ps cs)"
  by pat_completeness auto
termination
proof (relation "measure (\<lambda>(p, s). length p + length s)")
  have scan: "length rest < Suc (length s)"
    if "scan_class acc s = Some (stuff, rest)" for acc s stuff rest
    using that by (induction s arbitrary: acc) (auto split: if_splits intro: less_SucI)
  have split: "length rest < Suc (length s)"
    if "class_split s = Some (negated, stuff, rest)" for s negated stuff rest
  proof -
    from that obtain acc s1 where "scan_class acc s1 = Some (stuff, rest)" "length s1 \<le> length s"
      by (auto simp: class_split_def Let_def split: if_splits option.splits)
    with scan[of acc s1 stuff rest] show ?thesis by simp
  qed
  fix p ps c cs x2 negated y stuff rest
  assume "class_split ps = Some x2" "(negated, y) = x2" "(stuff, rest) = y"
  then have "class_split ps = Some (negated, stuff, rest)" by simp
  from split[OF this]
  show "((rest, cs), p # ps, c # cs) \<in> measure (\<lambda>(p, s). length p + length s)" by simp
qed auto

definition is_wildcard_pattern :: "string \<Rightarrow> bool" where
  "is_wildcard_pattern pat = list_ex (\<lambda>c. c = CHR ''*'' \<or> c = CHR ''?'' \<or> c = CHR ''['') pat"

text \<open>
  The scan of a directory and the two tests of \<^verbatim>\<open>Path.glob\<close> on a path from the root;
  all three resolve the path.
\<close>

definition listdir :: "node \<Rightarrow> string list \<Rightarrow> string list" where
  "listdir t p =
     (case resolve SYMLOOP_MAX t [] p of
        None \<Rightarrow> []
      | Some q \<Rightarrow> (case walk t q of Some (Dir es) \<Rightarrow> map fst es | _ \<Rightarrow> []))"

definition exists_at :: "node \<Rightarrow> string list \<Rightarrow> bool" where
  "exists_at t p = (resolve SYMLOOP_MAX t [] p \<noteq> None)"

definition is_dir_at :: "node \<Rightarrow> string list \<Rightarrow> bool" where
  "is_dir_at t p =
     (case resolve SYMLOOP_MAX t [] p of
        None \<Rightarrow> False
      | Some q \<Rightarrow> (case walk t q of Some (Dir es) \<Rightarrow> True | _ \<Rightarrow> False))"

text \<open>
  The directories below a directory, itself first, as the recursive selector of two stars
  walks them: in the order of the scans, and without entering a symbolic link.
\<close>

fun dirs_below :: "string list \<Rightarrow> node \<Rightarrow> string list list"
  and dirs_entries :: "string list \<Rightarrow> (string \<times> node) list \<Rightarrow> string list list"
where
  "dirs_below rel (Dir es) = rel # dirs_entries rel es"
| "dirs_below rel (File i) = []"
| "dirs_below rel (Symlink target) = []"
| "dirs_entries rel [] = []"
| "dirs_entries rel ((n, c) # es) = dirs_below (rel @ [n]) c @ dirs_entries rel es"

definition subdirs :: "node \<Rightarrow> string list \<Rightarrow> string list list" where
  "subdirs t p =
     (case resolve SYMLOOP_MAX t [] p of
        None \<Rightarrow> []
      | Some q \<Rightarrow> (case walk t q of None \<Rightarrow> [] | Some n \<Rightarrow> dirs_below [] n))"

fun two_stars :: "string \<Rightarrow> bool" where
  "two_stars (a # b # cs) = ((a = CHR ''*'' \<and> b = CHR ''*'') \<or> two_stars (b # cs))"
| "two_stars cs = False"

definition keep_first :: "'a list \<Rightarrow> 'a list" where
  "keep_first xs = rev (remdups (rev xs))"

text \<open>
  The selectors of pathlib, one for each component of the pattern: the components below
  \<open>base\<close> that the pattern selects, in the order of the directory scans. A component of
  two stars selects the directory and every directory below it, each path once. A
  component with a wildcard is matched against the scan of the directory. A component
  without a wildcard is not matched but looked up. Before the last component only
  directories are selected, and at the last component too when \<open>dironly\<close> is set (the
  pattern ended with a slash).
\<close>

fun glob_from :: "bool \<Rightarrow> node \<Rightarrow> string list \<Rightarrow> string list \<Rightarrow> string list list" where
  "glob_from dironly t base [] = [[]]"
| "glob_from dironly t base (pat # pats) =
     (if pat = ''**''
      then keep_first (concat (map (\<lambda>rel. map ((@) rel) (glob_from dironly t (base @ rel) pats))
                                   (subdirs t base)))
      else if is_wildcard_pattern pat
      then concat (map (\<lambda>n. map ((#) n) (glob_from dironly t (base @ [n]) pats))
                       (filter (\<lambda>n. (pats \<noteq> [] \<or> dironly \<longrightarrow> is_dir_at t (base @ [n]))
                                     \<and> fnmatch pat n)
                               (listdir t base)))
      else if (if pats \<noteq> [] \<or> dironly then is_dir_at t (base @ [pat])
               else exists_at t (base @ [pat]))
           then map ((#) pat) (glob_from dironly t (base @ [pat]) pats)
           else [])"

text \<open>
  \<^verbatim>\<open>Path.glob(pattern)\<close> and \<^verbatim>\<open>Path.rglob(pattern)\<close>, read to their end. The pattern of
  \<^verbatim>\<open>glob\<close> must not be empty; a pattern must be relative; two stars must be a whole
  component; nothing is selected below a path that is not a directory. The result is a
  snapshot; the generator of pathlib scans a directory at once.
\<close>

definition glob_parts :: "world \<Rightarrow> ppath \<Rightarrow> string list \<Rightarrow> bool \<Rightarrow> error + ppath list" where
  "glob_parts w dir pats dironly =
     (if list_ex (\<lambda>pat. pat \<noteq> ''**'' \<and> two_stars pat) pats then Inl ValueError
      else if \<not> is_dir w dir then Inr []
      else Inr (map (\<lambda>ns. dir\<lparr>parts := parts dir @ ns\<rparr>)
                  (glob_from dironly (tree w) (fs_path w dir) pats)))"


definition rglob :: "world \<Rightarrow> ppath \<Rightarrow> string \<Rightarrow> error + ppath list" where
  "rglob w dir pattern =
     (if anchor (Path pattern) \<noteq> [] then Inl NotImplementedError
      else glob_parts w dir (''**'' # parts (Path pattern))
             (pattern \<noteq> [] \<and> last pattern = CHR ''/''))"

section \<open>The environment of a run\<close>

text \<open>
  What the run obtains from outside: the text of a file that is held as a document, the
  effect of a shell command on the file system (none when the command exits with an
  error), and the answers of the signing service (none for a status that is not a
  success). A shell command acts on the tree and the file contents only; the commands
  run are recorded in \<open>calls\<close>.
\<close>

record env =
  render :: "content \<Rightarrow> string"
  shell :: "string \<Rightarrow> world \<Rightarrow> world option"
  post_token :: "string \<Rightarrow> string \<Rightarrow> string \<Rightarrow> string option"
  post_sign :: "string \<Rightarrow> string \<Rightarrow> string option \<Rightarrow> string \<Rightarrow> content \<Rightarrow> string option"


definition check_call :: "env \<Rightarrow> string \<Rightarrow> world \<Rightarrow> error + world" where
  "check_call e command w =
     (case shell e command w of
        None \<Rightarrow> Inl CalledProcessError
      | Some w' \<Rightarrow>
          Inr (w\<lparr> tree := tree w', store := store w', next_ino := next_ino w',
                  calls := calls w @ [command] \<rparr>))"

text \<open>\<^verbatim>\<open>shutil.copy(src, dst)\<close>: the content goes into a file of its own.\<close>

definition copy :: "world \<Rightarrow> ppath \<Rightarrow> ppath \<Rightarrow> error + world" where
  "copy w src dst =
     (case walk (tree w) (fs_path w src) of
        None \<Rightarrow> Inl FileNotFoundError
      | Some (Dir es) \<Rightarrow> Inl IsADirectoryError
      | Some (Symlink target) \<Rightarrow> Inl OSError
      | Some (File i) \<Rightarrow>
          let dst = (case walk (tree w) (fs_path w dst) of
                       Some (Dir es) \<Rightarrow> joinpath dst [name src]
                     | _ \<Rightarrow> dst)
          in if walk (tree w) (fs_path w dst) = Some (File i) then Inl SameFileError
             else write_file w dst (store w i))"

section \<open>Moving the source and debug trees\<close>






section \<open>Injecting updateinfo\<close>





section \<open>Collecting the images\<close>












section \<open>Promotion of the latest result\<close>

text \<open>
  \<^verbatim>\<open>rename_latest_dir\<close>: \<open>latest_path\<close> is \<^verbatim>\<open><results>/latest-<x>/compose\<close>, its parent is
  the symbolic link and the parent of that the results directory. \<open>now\<close> is what
  \<^verbatim>\<open>int(time())\<close> returns.
\<close>

definition msg_add_timestamp :: string where
  \<open>msg_add_timestamp =
     ''Add the timestamp to name of a real directory with latest result: "%s"''\<close>

definition rename_latest_dir :: "int \<Rightarrow> world \<Rightarrow> ppath \<Rightarrow> error + world" where
  "rename_latest_dir now w latest_path =
     bindE (readlink w (parent latest_path)) (\<lambda>target.
       let old_real_name = name (Path target)
       in if \<not> startswith old_real_name ''last_compose_dir'' then Inr w
          else
            let old_real_name_path = joinpath (parent (parent latest_path)) [old_real_name];
                new_real_name = str_int now @ ''-'' @ old_real_name;
                new_real_name_path = joinpath (parent (parent latest_path)) [new_real_name];
                w = logging_info ''New real name path %s'' w;
                w = logging_info ''Old real name path %s'' w
            in if \<not> path_exists w old_real_name_path then Inr w
               else bindE (rename (logging_info msg_add_timestamp w)
                             old_real_name_path new_real_name_path) (\<lambda>w.
                    bindE (unlink w (parent latest_path)) (\<lambda>w.
                    symlink w (path_str new_real_name_path) (parent latest_path))))"

section \<open>Rewriting the manifests in place\<close>

definition post_processing_rpms_json_metadata :: "world \<Rightarrow> ppath \<Rightarrow> string \<Rightarrow> error + world"
where
  "post_processing_rpms_json_metadata w latest_path arch =
     (let rpms_json_path = joinpath latest_path [''metadata'', arch, ''rpms.json''];
          w = logging_info ''Post-processing rpms.json'' w
      in if \<not> path_exists w rpms_json_path
         then Inr (logging_warning ''rpms.json is absent'' w)
         else bindE (json_load w rpms_json_path) (\<lambda>content.
              bindE (rpms_content content) (\<lambda>content'.
              write_file w rpms_json_path (Json content'))))"

definition post_processing_compose_info_json_metadata ::
  "world \<Rightarrow> ppath \<Rightarrow> string \<Rightarrow> error + world"
where
  "post_processing_compose_info_json_metadata w latest_path arch =
     (let composeinfo_json_path = joinpath latest_path [''metadata'', arch, ''composeinfo.json''];
          w = logging_info ''Post-processing composeinfo.json'' w
      in if \<not> path_exists w composeinfo_json_path
         then Inr (logging_warning ''composeinfo.json is absent'' w)
         else bindE (json_load w composeinfo_json_path) (\<lambda>content.
              bindE (composeinfo_content content) (\<lambda>content'.
              write_file w composeinfo_json_path (Json content'))))"

definition post_processing_images_json_metadata ::
  "world \<Rightarrow> ppath \<Rightarrow> string \<Rightarrow> error + world"
where
  "post_processing_images_json_metadata w latest_path arch =
     (let images_json_path = joinpath latest_path [''metadata'', arch, ''images.json''];
          w = logging_info ''Post-processing images.json'' w
      in if \<not> path_exists w images_json_path
         then Inr (logging_warning ''images.json is absent'' w)
         else bindE (json_load w images_json_path) (\<lambda>content.
              bindE (images_content content) (\<lambda>content'.
              write_file w images_json_path (Json content'))))"


section \<open>Vocabulary of the statements\<close>

text \<open>
  A single path component, as a variant name, an architecture or a file name is: not
  empty, not the dot, and without a slash.
\<close>

definition plain :: "string \<Rightarrow> bool" where
  "plain c = (c \<noteq> [] \<and> c \<noteq> ''.'' \<and> CHR ''/'' \<notin> set c)"

text \<open>The value found in a document by descending through the given keys.\<close>

fun jlookup :: "string list \<Rightarrow> json \<Rightarrow> json option" where
  "jlookup [] j = Some j"
| "jlookup (k # ks) (JObj kvs) = (case map_of kvs k of None \<Rightarrow> None | Some v \<Rightarrow> jlookup ks v)"
| "jlookup (k # ks) _ = None"

text \<open>Whether an operation returned, rather than raised.\<close>

definition succeeds :: "error + 'a \<Rightarrow> bool" where
  "succeeds m = (case m of Inl e \<Rightarrow> False | Inr x \<Rightarrow> True)"









section \<open>Sample compose results\<close>

text \<open>
  A small rpms manifest: a source package of the variant \<^verbatim>\<open>BaseOS\<close>, a package whose
  category has no canonical directory, and a package of the variant \<^verbatim>\<open>Minimal\<close>.
\<close>

definition sample_rpms :: json where
  "sample_rpms =
     JObj [(''header'', JObj [(''type'', JStr ''productmd.rpms'')]),
           (''payload'', JObj [(''rpms'', JObj
              [(''BaseOS'', JObj [(''x86_64'', JObj [(''bash-0:5.1-2.src'', JObj
                  [(''bash-0:5.1-2.src'', JObj
                      [(''category'', JStr ''source''),
                       (''path'', JStr ''BaseOS/source/tree/Packages/b/bash-5.1-2.src.rpm''),
                       (''sigkey'', JNull)]),
                   (''bash-0:5.1-2.x86_64'', JObj
                      [(''category'', JStr ''binary''),
                       (''path'', JStr ''BaseOS/x86_64/os/Packages/b/bash-5.1-2.x86_64.rpm''),
                       (''sigkey'', JNull)])])])]),
               (''Minimal'', JObj [(''x86_64'', JObj [])])])])]"

definition sample_rpms_world :: world where
  "sample_rpms_world =
     \<lparr> tree = Dir [(''compose'', Dir [(''metadata'', Dir [(''x86_64'', Dir
                 [(''rpms.json'', File 0)])])])],
       store = (\<lambda>i. Text [])(0 := Json sample_rpms),
       next_ino = 1, cwd = [], logs = [], calls = [] \<rparr>"

text \<open>
  A small composeinfo manifest: the variant \<^verbatim>\<open>BaseOS\<close> with a path type that has a
  canonical directory and one that has none, and the variant \<^verbatim>\<open>Minimal\<close>.
\<close>

definition sample_composeinfo :: json where
  "sample_composeinfo =
     JObj [(''header'', JObj [(''type'', JStr ''productmd.composeinfo'')]),
           (''payload'', JObj [(''variants'', JObj
              [(''BaseOS'', JObj
                  [(''id'', JStr ''BaseOS''),
                   (''paths'', JObj
                      [(''debug_tree'', JObj [(''x86_64'', JStr ''BaseOS/x86_64/debug/tree'')]),
                       (''os_tree'', JObj [(''x86_64'', JStr ''BaseOS/x86_64/os'')])])]),
               (''Minimal'', JObj
                  [(''id'', JStr ''Minimal''),
                   (''paths'', JObj
                      [(''os_tree'', JObj [(''x86_64'', JStr ''Minimal/x86_64/os'')])])])])])]"

definition sample_composeinfo_world :: world where
  "sample_composeinfo_world =
     \<lparr> tree = Dir [(''compose'', Dir [(''metadata'', Dir [(''x86_64'', Dir
                 [(''composeinfo.json'', File 0)])])])],
       store = (\<lambda>i. Text [])(0 := Json sample_composeinfo),
       next_ino = 1, cwd = [], logs = [], calls = [] \<rparr>"





text \<open>
  Two results directories. In the first the link \<^verbatim>\<open>latest-8\<close> names the directory
  \<^verbatim>\<open>last_compose_dir\<close> beside it. In the second the link names a directory
  \<^verbatim>\<open>last_compose_dir\<close> of another place, and a third link names \<^verbatim>\<open>stable-foo\<close>.
\<close>

definition sample_results_world :: world where
  "sample_results_world =
     \<lparr> tree = Dir [(''env'', Dir [(''pungi-results'', Dir
                 [(''last_compose_dir'', Dir [(''compose'', Dir [])]),
                  (''latest-8'', Symlink ''last_compose_dir''),
                  (''stable-foo'', Dir [(''compose'', Dir [])]),
                  (''latest-7'', Symlink ''stable-foo'')])])],
       store = (\<lambda>i. Text []), next_ino = 0, cwd = [], logs = [], calls = [] \<rparr>"

definition sample_elsewhere_world :: world where
  "sample_elsewhere_world =
     \<lparr> tree = Dir [(''data'', Dir [(''last_compose_dir'', Dir [(''compose'', Dir [])])]),
                 (''env'', Dir [(''pungi-results'', Dir
                    [(''latest-8'', Symlink ''/data/last_compose_dir'')])])],
       store = (\<lambda>i. Text []), next_ino = 0, cwd = [], logs = [], calls = [] \<rparr>"



text \<open>
  Two more results directories. In the first the entry \<^verbatim>\<open>last_compose_dir\<close> is itself a
  symbolic link, which leads through two dots to the directory \<^verbatim>\<open>real_dir\<close>; in the
  second it is a link that leads nowhere.
\<close>

definition sample_relinked_world :: world where
  "sample_relinked_world =
     \<lparr> tree = Dir [(''env'', Dir [(''pungi-results'', Dir
                 [(''real_dir'', Dir [(''compose'', Dir [])]),
                  (''last_compose_dir'', Symlink ''../pungi-results/real_dir''),
                  (''latest-8'', Symlink ''last_compose_dir'')])])],
       store = (\<lambda>i. Text []), next_ino = 0, cwd = [], logs = [], calls = [] \<rparr>"

definition sample_dangling_world :: world where
  "sample_dangling_world =
     \<lparr> tree = Dir [(''env'', Dir [(''pungi-results'', Dir
                 [(''last_compose_dir'', Symlink ''gone''),
                  (''latest-8'', Symlink ''last_compose_dir'')])])],
       store = (\<lambda>i. Text []), next_ino = 0, cwd = [], logs = [], calls = [] \<rparr>"




section \<open>Auxiliary facts\<close>

lemma walk_append: "walk t (p @ q) = (case walk t p of None \<Rightarrow> None | Some n \<Rightarrow> walk n q)"
proof (induction t p rule: walk.induct)
  case (2 es c cs)
  then show ?case by (auto split: option.splits)
qed simp_all

lemma walk_below_link: "walk (Symlink s) q = Some n \<Longrightarrow> q = []"
  by (cases q) auto

text \<open>Where the path as it is written leads to an entry that is no link, it resolves to itself.\<close>

lemma resolve_walk_append:
  "walk t (cur @ q) = Some n \<Longrightarrow> \<forall>s. n \<noteq> Symlink s \<Longrightarrow>
     resolve fuel t cur (q @ r) = resolve fuel t (cur @ q) r"
proof (induction q arbitrary: cur)
  case Nil
  then show ?case by simp
next
  case (Cons c cs)
  from Cons.prems(1) have w: "walk t ((cur @ [c]) @ cs) = Some n" by simp
  then obtain m where m: "walk t (cur @ [c]) = Some m" "walk m cs = Some n"
    unfolding walk_append[of t "cur @ [c]" cs] by (auto split: option.splits)
  have nl: "\<forall>s. m \<noteq> Symlink s"
  proof (intro allI notI)
    fix s assume "m = Symlink s"
    with m(2) have "cs = []" by (auto dest: walk_below_link)
    with m(2) \<open>m = Symlink s\<close> have "n = Symlink s" by simp
    with Cons.prems(2) show False by blast
  qed
  have "resolve fuel t cur ((c # cs) @ r) = resolve fuel t (cur @ [c]) (cs @ r)"
    using m(1) nl by (cases m) auto
  also have "\<dots> = resolve fuel t ((cur @ [c]) @ cs) r"
    by (rule Cons.IH[OF w Cons.prems(2)])
  finally show ?case by simp
qed

lemma resolve_walk:
  "walk t q = Some n \<Longrightarrow> \<forall>s. n \<noteq> Symlink s \<Longrightarrow> resolve fuel t [] q = Some q"
  using resolve_walk_append[of t "[]" q n fuel "[]"] by simp


lemma exists_nonlink:
  "walk (tree w) (fs_path w p) = Some n \<Longrightarrow> \<forall>target. n \<noteq> Symlink target \<Longrightarrow> path_exists w p"
  by (simp add: path_exists_def realpath_def resolve_walk)




lemma realpath_walk:
  "walk (tree w) (fs_path w p) = Some n \<Longrightarrow> \<forall>s. n \<noteq> Symlink s \<Longrightarrow> realpath w p = Some (fs_path w p)"
  by (simp add: realpath_def resolve_walk)



lemma bindE_Inr [simp]: "bindE (Inr x) f = f x" by (simp add: bindE_def)
lemma bindE_Inl [simp]: "bindE (Inl e) f = Inl e" by (simp add: bindE_def)
lemma bindE_eq_Inr: "bindE m f = Inr y \<longleftrightarrow> (\<exists>x. m = Inr x \<and> f x = Inr y)"
  by (cases m) auto

lemma map_items_lookup:
  "map_items f kvs = Inr kvs' \<Longrightarrow> map_of kvs k = Some v \<Longrightarrow>
     \<exists>v'. f k v = Inr v' \<and> map_of kvs' k = Some v'"
proof (induction kvs arbitrary: kvs')
  case Nil
  then show ?case by simp
next
  case (Cons a kvs)
  obtain k0 v0 where a: "a = (k0, v0)" by (cases a)
  from Cons.prems(1) a obtain v0' rest where
    f0: "f k0 v0 = Inr v0'" and r: "map_items f kvs = Inr rest" and kvs': "kvs' = (k0, v0') # rest"
    by (auto simp: bindE_eq_Inr)
  show ?case
  proof (cases "k = k0")
    case True
    with Cons.prems(2) a f0 kvs' show ?thesis by simp
  next
    case False
    with Cons.prems(2) a have "map_of kvs k = Some v" by simp
    from Cons.IH[OF r this] False kvs' show ?thesis by simp
  qed
qed

lemma map_items_keys: "map_items f kvs = Inr kvs' \<Longrightarrow> map fst kvs' = map fst kvs"
  by (induction kvs arbitrary: kvs') (auto simp: bindE_eq_Inr)

lemma map_items_id: "map_items (\<lambda>k v. Inr v) kvs = Inr kvs"
  by (induction kvs) auto

lemma split_slash_nonempty [simp]: "split_slash s \<noteq> []"
  by (induction s) (auto split: list.splits)

lemma split_slash_append: "split_slash (a @ CHR ''/'' # b) = split_slash a @ split_slash b"
  by (induction a) (auto split: list.splits)

lemma split_slash_noslash: "CHR ''/'' \<notin> set s \<Longrightarrow> split_slash s = [s]"
  by (induction s) (auto split: list.splits)

lemma split_slash_join:
  "split_slash (join_slash (x # y # ys)) = split_slash x @ split_slash (join_slash (y # ys))"
  by (simp add: split_slash_append)

lemma parts_join_two:
  assumes "plain a" "plain b"
  shows "filter is_component (split_slash (join_slash (ds @ [a, b])))
         = filter is_component (concat (map split_slash ds)) @ [a, b]"
proof (induction ds)
  case Nil
  from assms show ?case
    by (simp add: split_slash_append split_slash_noslash plain_def is_component_def)
next
  case (Cons d ds)
  have "ds @ [a, b] = hd (ds @ [a, b]) # tl (ds @ [a, b])" by (cases ds) auto
  then obtain y ys where e: "ds @ [a, b] = y # ys" by blast
  have "split_slash (join_slash (d # ds @ [a, b])) = split_slash d @ split_slash (join_slash (ds @ [a, b]))"
    unfolding e by (rule split_slash_join)
  with Cons show ?case by simp
qed

lemma join_slash_append:
  "xs \<noteq> [] \<Longrightarrow> ys \<noteq> [] \<Longrightarrow> join_slash (xs @ ys) = join_slash xs @ ''/'' @ join_slash ys"
proof (induction xs rule: join_slash.induct)
  case 1 then show ?case by simp
next
  case (2 x) then show ?case by (cases ys) auto
next
  case (3 x y ys') then show ?case by simp
qed

lemma Path_plain: "plain v \<Longrightarrow> Path v = \<lparr>anchor = [], parts = [v]\<rparr>"
  by (cases v) (auto simp: Path_def plain_def split_slash_noslash is_component_def)

lemma template_parts:
  assumes "map_of PATH_DICTIONARY c = Some t" "plain arch"
  shows "anchor (Path (format_arch t arch)) = [] \<and> parts (Path (format_arch t arch)) \<noteq> []
       \<and> join_slash (parts (Path (format_arch t arch))) = format_arch t arch"
proof -
  from assms(1) have "t = [Lit ''debug/'', ArchField] \<or> t = [Lit ''Source''] \<or> t = [Lit ''Source/Packages'']
      \<or> t = [Lit ''debug/'', ArchField, Lit ''/Packages'']"
    by (auto simp: PATH_DICTIONARY_def split: if_splits)
  moreover have "split_slash arch = [arch]" "is_component arch"
    using assms(2) by (auto simp: plain_def split_slash_noslash is_component_def)
  ultimately show ?thesis
    by (auto simp: Path_def split_slash_append is_component_def)
qed


lemma jlookup_Cons:
  "jlookup (k # ks) j = Some x \<longleftrightarrow> (\<exists>kvs v. j = JObj kvs \<and> map_of kvs k = Some v \<and> jlookup ks v = Some x)"
  by (cases j) (auto split: option.splits)

lemma jget_eq_Inr: "jget k j = Inr v \<longleftrightarrow> (\<exists>kvs. j = JObj kvs \<and> map_of kvs k = Some v)"
  by (cases j) (auto split: option.splits)

lemma jitems_eq_Inr: "jitems j = Inr kvs \<longleftrightarrow> j = JObj kvs"
  by (cases j) auto

lemma jstr_eq_Inr: "jstr j = Inr s \<longleftrightarrow> j = JStr s"
  by (cases j) auto

lemma name_parts: "name \<lparr>anchor = a, parts = xs @ [x]\<rparr> = x"
  by (simp add: name_def)

lemma rpms_artifact_mapped:
  assumes cat: "jget ''category'' entry = Inr (JStr category)"
    and tpl: "map_of PATH_DICTIONARY category = Some template"
    and pth: "jget ''path'' entry = Inr (JStr (join_slash (dirs @ [pdir, fname])))"
    and pl: "plain variant" "plain arch" "plain pdir" "plain fname"
  shows "\<exists>entry'. rpms_artifact variant arch entry = Inr entry' \<and>
           jget ''path'' entry' = Inr (JStr (join_slash [variant, format_arch template arch, pdir, fname]))"
proof -
  from cat obtain kvs where e: "entry = JObj kvs" by (auto simp: jget_eq_Inr)
  let ?orig = "join_slash (dirs @ [pdir, fname])"
  let ?pre = "filter is_component (concat (map split_slash dirs))"
  have po: "parts (Path ?orig) = (?pre @ [pdir]) @ [fname]"
    using parts_join_two[OF pl(3,4)] by (simp add: Path_def)
  have n1: "name (Path ?orig) = fname"
    unfolding name_def po by simp
  have bl: "butlast (parts (Path ?orig)) = ?pre @ [pdir]"
    unfolding po by (simp only: butlast_snoc)
  have n2: "name (parent (Path ?orig)) = pdir"
    unfolding name_def parent_def by (simp add: bl)
  let ?sub = "format_arch template arch"
  from template_parts[OF tpl pl(2)] have
    t1: "anchor (Path ?sub) = []" and t2: "parts (Path ?sub) \<noteq> []"
    and t3: "join_slash (parts (Path ?sub)) = ?sub" by auto
  have j: "joinpath (Path variant) [?sub, pdir, fname]
        = \<lparr>anchor = [], parts = [variant] @ parts (Path ?sub) @ [pdir, fname]\<rparr>"
    using pl t1 by (simp add: Path_plain Let_def)
  have s: "path_str (joinpath (Path variant) [?sub, pdir, fname])
        = join_slash [variant, ?sub, pdir, fname]"
    unfolding j path_str_def using t2 t3
    by (simp add: join_slash_append[of "[variant]", simplified] join_slash_append[of "parts (Path ?sub)" "[pdir, fname]", simplified])
  have "rpms_artifact variant arch entry
        = Inr (jset ''path'' (JStr (join_slash [variant, ?sub, pdir, fname])) entry)"
    using cat tpl pth n1 n2 unfolding rpms_artifact_def s[symmetric]
    by (simp add: Let_def del: joinpath.simps join_slash.simps)
  then show ?thesis
    unfolding e by (simp add: update_conv' del: join_slash.simps)
qed


lemma rpms_srpm_lookup:
  assumes "rpms_srpm v a sd = Inr sd'" "jlookup [artifact] sd = Some e"
  shows "\<exists>e'. rpms_artifact v a e = Inr e' \<and> jlookup [artifact] sd' = Some e'"
proof -
  from assms(2) obtain kvs where sd: "sd = JObj kvs" and m: "map_of kvs artifact = Some e"
    by (auto simp: jlookup_Cons)
  from assms(1) sd obtain kvs' where
    mi: "map_items (\<lambda>artifact artifact_data. rpms_artifact v a artifact_data) kvs = Inr kvs'"
    and sd': "sd' = JObj kvs'"
    by (auto simp: rpms_srpm_def bindE_eq_Inr)
  from map_items_lookup[OF mi m] sd' show ?thesis by auto
qed

lemma rpms_arch_lookup:
  assumes "rpms_arch v a ad = Inr ad'" "jlookup [srpm, artifact] ad = Some e"
  shows "\<exists>e'. rpms_artifact v a e = Inr e' \<and> jlookup [srpm, artifact] ad' = Some e'"
proof -
  from assms(2) obtain kvs sd where ad: "ad = JObj kvs" and m: "map_of kvs srpm = Some sd"
    and l: "jlookup [artifact] sd = Some e"
    by (auto simp: jlookup_Cons)
  from assms(1) ad obtain kvs' where
    mi: "map_items (\<lambda>srpm srpm_data. rpms_srpm v a srpm_data) kvs = Inr kvs'"
    and ad': "ad' = JObj kvs'"
    by (auto simp: rpms_arch_def bindE_eq_Inr)
  from map_items_lookup[OF mi m] obtain sd' where
    r: "rpms_srpm v a sd = Inr sd'" and m': "map_of kvs' srpm = Some sd'" by auto
  from rpms_srpm_lookup[OF r l] ad' m' show ?thesis by auto
qed

lemma rpms_variant_lookup:
  assumes "rpms_variant v vd = Inr vd'" "jlookup [a, srpm, artifact] vd = Some e" "v \<noteq> ''Minimal''"
  shows "\<exists>e'. rpms_artifact v a e = Inr e' \<and> jlookup [a, srpm, artifact] vd' = Some e'"
proof -
  from assms(2) obtain kvs ad where vd: "vd = JObj kvs" and m: "map_of kvs a = Some ad"
    and l: "jlookup [srpm, artifact] ad = Some e"
    by (auto simp: jlookup_Cons)
  from assms(1,3) vd obtain kvs' where
    mi: "map_items (\<lambda>arch arch_data. rpms_arch v arch arch_data) kvs = Inr kvs'"
    and vd': "vd' = JObj kvs'"
    by (auto simp: rpms_variant_def bindE_eq_Inr)
  from map_items_lookup[OF mi m] obtain ad' where
    r: "rpms_arch v a ad = Inr ad'" and m': "map_of kvs' a = Some ad'" by auto
  from rpms_arch_lookup[OF r l] vd' m' show ?thesis by auto
qed

lemma rpms_content_lookup:
  assumes "rpms_content content = Inr content'"
    and "jlookup [''payload'', ''rpms'', v, a, srpm, artifact] content = Some e"
    and "v \<noteq> ''Minimal''"
  shows "\<exists>e'. rpms_artifact v a e = Inr e' \<and>
           jlookup [''payload'', ''rpms'', v, a, srpm, artifact] content' = Some e'"
proof -
  from assms(2) obtain c0 p0 vs vd where c: "content = JObj c0"
    and mp: "map_of c0 ''payload'' = Some (JObj p0)"
    and mr: "map_of p0 ''rpms'' = Some (JObj vs)"
    and mv: "map_of vs v = Some vd"
    and l: "jlookup [a, srpm, artifact] vd = Some e"
    by (auto simp: jlookup_Cons)
  from assms(1) c mp mr obtain vs' where
    mi: "map_items rpms_variant vs = Inr vs'"
    and c': "content' = JObj (AList.update ''payload''
               (JObj (AList.update ''rpms'' (JObj (AList.delete ''Minimal'' vs')) p0)) c0)"
    by (auto simp: rpms_content_def bindE_eq_Inr)
  from map_items_lookup[OF mi mv] obtain vd' where
    r: "rpms_variant v vd = Inr vd'" and m': "map_of vs' v = Some vd'" by auto
  from rpms_variant_lookup[OF r l assms(3)] obtain e' where
    e': "rpms_artifact v a e = Inr e'" "jlookup [a, srpm, artifact] vd' = Some e'" by auto
  have "jlookup [''payload'', ''rpms'', v, a, srpm, artifact] content' = Some e'"
    unfolding c' using m' e'(2) assms(3) by (simp add: update_conv')
  with e'(1) show ?thesis by blast
qed

lemma logging_simps [simp]:
  "tree (logging_info m w) = tree w" "store (logging_info m w) = store w"
  "cwd (logging_info m w) = cwd w" "next_ino (logging_info m w) = next_ino w"
  "calls (logging_info m w) = calls w"
  "tree (logging_warning m w) = tree w" "store (logging_warning m w) = store w"
  "cwd (logging_warning m w) = cwd w" "next_ino (logging_warning m w) = next_ino w"
  "calls (logging_warning m w) = calls w"
  "fs_path (logging_info m w) p = fs_path w p" "fs_path (logging_warning m w) p = fs_path w p"
  by (simp_all add: logging_info_def logging_warning_def fs_path_def)

lemma json_load_logging [simp]:
  "json_load (logging_info m w) p = json_load w p"
  "json_load (logging_warning m w) p = json_load w p"
  by (simp_all add: json_load_def read_file_def split: option.splits node.splits)

lemma json_load_file:
  "json_load w p = Inr j \<longleftrightarrow> (\<exists>i. walk (tree w) (fs_path w p) = Some (File i) \<and> store w i = Json j)"
  by (auto simp: json_load_def read_file_def bindE_eq_Inr split: option.splits node.splits content.splits)

lemma json_load_exists: "json_load w p = Inr j \<Longrightarrow> path_exists w p"
  by (auto simp: json_load_file intro: exists_nonlink)

lemma write_file_json_load:
  assumes "json_load w p = Inr j" "write_file w p (Json j') = Inr w'"
  shows "json_load w' p = Inr j'"
  using assms by (auto simp: json_load_file write_file_def fs_path_def)

lemma rewriter_file_level:
  assumes "json_load w p = Inr content"
    and "(if \<not> path_exists (logging_info m1 w) p then Inr (logging_warning m2 (logging_info m1 w))
          else bindE (json_load (logging_info m1 w) p) (\<lambda>content. bindE (f content) (\<lambda>content'.
               write_file (logging_info m1 w) p (Json content')))) = Inr w'"
  shows "\<exists>content'. f content = Inr content' \<and> json_load w' p = Inr content'"
proof -
  have ex: "path_exists (logging_info m1 w) p"
    using assms(1) by (intro json_load_exists[of _ _ content]) simp
  from assms(2) ex obtain content' where
    f: "f content = Inr content'" and wr: "write_file (logging_info m1 w) p (Json content') = Inr w'"
    using assms(1) by (auto simp: bindE_eq_Inr)
  have "json_load (logging_info m1 w) p = Inr content" using assms(1) by simp
  from write_file_json_load[OF this wr] f show ?thesis by blast
qed


lemma succeeds_Inr: "succeeds m \<Longrightarrow> \<exists>x. m = Inr x"
  by (cases m) (auto simp: succeeds_def)

lemma rpms_artifact_unmapped:
  "jget ''category'' entry = Inr cat \<Longrightarrow> path_dictionary_get cat = Inr None \<Longrightarrow>
     rpms_artifact variant arch entry = Inr entry"
  by (simp add: rpms_artifact_def)

lemma composeinfo_path_type_unmapped:
  "map_of PATH_DICTIONARY path_type = None \<Longrightarrow> jitems path_data = Inr kvs \<Longrightarrow>
     composeinfo_path_type variant path_type path_data = Inr path_data"
  by (simp add: composeinfo_path_type_def map_items_id jitems_eq_Inr)

lemma composeinfo_content_lookup:
  assumes "composeinfo_content content = Inr content'"
    and "jlookup [''payload'', ''variants'', v, ''paths'', pt] content = Some pd"
    and "v \<noteq> ''Minimal''"
  shows "\<exists>pd'. composeinfo_path_type v pt pd = Inr pd' \<and>
           jlookup [''payload'', ''variants'', v, ''paths'', pt] content' = Some pd'"
proof -
  from assms(2) obtain c0 p0 vs vd0 pts where c: "content = JObj c0"
    and mp: "map_of c0 ''payload'' = Some (JObj p0)"
    and mr: "map_of p0 ''variants'' = Some (JObj vs)"
    and mv: "map_of vs v = Some (JObj vd0)"
    and mps: "map_of vd0 ''paths'' = Some (JObj pts)"
    and mpt: "map_of pts pt = Some pd"
    by (auto simp: jlookup_Cons)
  from assms(1) c mp mr obtain vs' where
    mi: "map_items composeinfo_variant vs = Inr vs'"
    and c': "content' = JObj (AList.update ''payload''
               (JObj (AList.update ''variants'' (JObj (AList.delete ''Minimal'' vs')) p0)) c0)"
    by (auto simp: composeinfo_content_def bindE_eq_Inr)
  from map_items_lookup[OF mi mv] obtain vd' where
    r: "composeinfo_variant v (JObj vd0) = Inr vd'" and m': "map_of vs' v = Some vd'" by auto
  from r assms(3) mps obtain pts' where
    mi2: "map_items (\<lambda>path_type path_data. composeinfo_path_type v path_type path_data) pts = Inr pts'"
    and vd': "vd' = JObj (AList.update ''paths'' (JObj pts') vd0)"
    by (auto simp: composeinfo_variant_def bindE_eq_Inr)
  from map_items_lookup[OF mi2 mpt] obtain pd' where
    pd': "composeinfo_path_type v pt pd = Inr pd'" "map_of pts' pt = Some pd'" by auto
  have "jlookup [''payload'', ''variants'', v, ''paths'', pt] content' = Some pd'"
    unfolding c' vd' using m' pd'(2) assms(3) vd' by (simp add: update_conv')
  with pd'(1) show ?thesis by blast
qed



lemma walk_alter_del: "p \<noteq> [] \<Longrightarrow> walk (alter p None t) p = None"
proof (induction p "None :: node option" t rule: alter.induct)
  case (2 c es)
  then show ?case by (simp add: delete_conv')
next
  case (3 c v va es)
  then show ?case by (auto simp: update_conv' split: option.splits)
qed simp_all

lemma walk_alter_same:
  "p \<noteq> [] \<Longrightarrow> walk t (butlast p) = Some (Dir es) \<Longrightarrow> walk (alter p v t) p = v"
proof (induction p v t arbitrary: es rule: alter.induct)
  case (2 c v es')
  then show ?case by (cases v) (simp_all add: delete_conv' update_conv')
next
  case (3 c c' cs v es')
  then show ?case by (auto simp: update_conv' split: option.splits)
qed (auto split: if_splits)

lemma walk_alter_below:
  "p \<noteq> [] \<Longrightarrow> walk t (butlast p) = Some (Dir es) \<Longrightarrow> walk (alter p (Some n) t) (p @ r) = walk n r"
proof (induction p "Some n" t arbitrary: es rule: alter.induct)
  case (2 c es')
  then show ?case by (simp add: update_conv')
next
  case (3 c c' cs es')
  then show ?case by (auto simp: update_conv' split: option.splits)
qed (auto split: if_splits)

lemma walk_alter_other:
  "\<not> prefix p q \<Longrightarrow> \<not> prefix q p \<Longrightarrow> walk (alter p v t) q = walk t q"
proof (induction p v t arbitrary: q rule: alter.induct)
  case (1 v t)
  then show ?case by simp
next
  case (2 c v es)
  then obtain d ds where q: "q = d # ds" and "d \<noteq> c" by (cases q) auto
  then show ?case by (cases v) (simp_all add: delete_conv' update_conv')
next
  case (3 c c' cs v es)
  then obtain d ds where q: "q = d # ds" by (cases q) auto
  show ?case
  proof (cases "d = c")
    case True
    with 3 q show ?thesis by (auto simp: update_conv' split: option.splits)
  next
    case False
    with q show ?thesis by (auto simp: update_conv' split: option.splits)
  qed
qed simp_all




lemma walk_parent_dir: "walk t (p @ [c]) = Some n \<Longrightarrow> \<exists>es. walk t p = Some (Dir es)"
proof -
  assume a: "walk t (p @ [c]) = Some n"
  then obtain m where m: "walk t p = Some m" "walk m [c] = Some n"
    by (auto simp: walk_append split: option.splits)
  then show ?thesis by (cases m) auto
qed

lemma walk_alter_parent:
  "walk t p = Some (Dir es) \<Longrightarrow> \<exists>es'. walk (alter (p @ c # cs) v t) p = Some (Dir es')"
proof (induction p arbitrary: t es)
  case Nil
  then show ?case
    by (cases cs; cases v) (auto split: option.splits)
next
  case (Cons a p)
  from Cons.prems obtain ts n where t: "t = Dir ts" and n: "map_of ts a = Some n"
    and w: "walk n p = Some (Dir es)"
    by (cases t) (auto split: option.splits)
  from Cons.IH[OF w] obtain es' where "walk (alter (p @ c # cs) v n) p = Some (Dir es')" by blast
  then show ?case using t n
    by (cases "p @ c # cs") (auto simp: update_conv')
qed




declare joinpath.simps [simp del]


lemma path_exists_logging [simp]:
  "path_exists (logging_info m w) p = path_exists w p"
  "path_exists (logging_warning m w) p = path_exists w p"
  by (simp_all add: path_exists_def realpath_def)

lemma rename_frame:
  "rename w a b = Inr w' \<Longrightarrow>
     cwd w' = cwd w \<and> store w' = store w \<and> next_ino w' = next_ino w \<and> logs w' = logs w
     \<and> calls w' = calls w"
  by (auto simp: rename_def bindE_eq_Inr)










lemma joinpath_snoc: "joinpath p (xs @ [s]) = joinpath (joinpath p xs) [s]"
  by (induction xs arbitrary: p) (simp_all add: Let_def joinpath.simps)


lemma joinpath_three: "joinpath p [a, b, c] = joinpath (joinpath p [a, b]) [c]"
  using joinpath_snoc[of p "[a, b]" c] by simp

lemma Path_source [simp]: "Path ''source'' = \<lparr>anchor = [], parts = [''source'']\<rparr>"
  by (simp add: Path_def is_component_def)

lemma Path_tree [simp]: "Path ''tree'' = \<lparr>anchor = [], parts = [''tree'']\<rparr>"
  by (simp add: Path_def is_component_def)



lemma PD_source [simp]: "map_of PATH_DICTIONARY ''source'' = Some [Lit ''Source'']"
  by (simp add: PATH_DICTIONARY_def)

lemma PD_debug [simp]: "map_of PATH_DICTIONARY ''debug'' = Some [Lit ''debug/'', ArchField]"
  by (simp add: PATH_DICTIONARY_def)






lemma split_slash_no_slash: "x \<in> set (split_slash s) \<Longrightarrow> CHR ''/'' \<notin> set x"
proof (induction s arbitrary: x)
  case Nil
  then show ?case by simp
next
  case (Cons c s)
  then show ?case
    by (cases "split_slash s") (auto split: if_splits)
qed

lemma name_plain: "name (Path t) \<noteq> [] \<Longrightarrow> plain (name (Path t))"
proof -
  assume a: "name (Path t) \<noteq> []"
  then have ne: "parts (Path t) \<noteq> []" by (auto simp: name_def)
  then have "last (parts (Path t)) \<in> set (parts (Path t))" by simp
  then have "last (parts (Path t)) \<in> set (split_slash t)" "is_component (last (parts (Path t)))"
    by (auto simp: Path_def)
  with ne show ?thesis
    by (auto simp: name_def plain_def is_component_def dest: split_slash_no_slash)
qed

lemma digit_no_slash: "d < 10 \<Longrightarrow> digit d \<noteq> CHR ''/''"
proof -
  assume "d < 10"
  then have "d \<in> {0, 1, 2, 3, 4, 5, 6, 7, 8, 9}" by auto
  then show ?thesis by (auto simp: digit_def)
qed

lemma str_nat_no_slash: "CHR ''/'' \<notin> set (str_nat n)"
proof (induction n rule: str_nat.induct)
  case (1 n)
  show ?case
  proof (cases "n < 10")
    case True
    then show ?thesis using digit_no_slash[of n] by (subst str_nat.simps) auto
  next
    case False
    with 1 show ?thesis using digit_no_slash[of "n mod 10"]
      by (subst str_nat.simps) auto
  qed
qed

lemma str_nat_nonempty: "str_nat n \<noteq> []"
  by (subst str_nat.simps) simp

lemma str_int_no_slash: "CHR ''/'' \<notin> set (str_int i)"
  by (simp add: str_int_def str_nat_no_slash)

lemma str_int_nonempty: "str_int i \<noteq> []"
  by (simp add: str_int_def str_nat_nonempty)

lemma stamped_plain: "plain c \<Longrightarrow> plain (str_int i @ ''-'' @ c)"
  using str_int_nonempty[of i] str_int_no_slash[of i]
  by (cases "str_int i") (auto simp: plain_def)

lemma stamped_differs: "str_int i @ ''-'' @ c \<noteq> c"
proof
  assume "str_int i @ ''-'' @ c = c"
  then have "length (str_int i @ ''-'' @ c) = length c" by simp
  then show False by simp
qed

lemma joinpath_plain: "plain c \<Longrightarrow> joinpath p [c] = p\<lparr>parts := parts p @ [c]\<rparr>"
  by (simp add: joinpath.simps Path_plain Let_def)



lemma rename_node_result:
  assumes "rename_node src dst t = Inr t'" "src \<noteq> dst" "walk t src = Some n"
  shows "t' = alter dst (Some n) (alter src None t) \<and> rename_check n (walk t dst) = None
         \<and> (\<exists>es. walk t (butlast dst) = Some (Dir es)) \<and> \<not> prefix src dst \<and> dst \<noteq> []"
  using assms
  by (auto simp: rename_node_def split: option.splits node.splits if_splits)

lemma readlink_eq_Inr:
  "readlink w p = Inr target \<longleftrightarrow> walk (tree w) (fs_path w p) = Some (Symlink target)"
  by (auto simp: readlink_def split: option.splits node.splits)

lemma promotion_unchanged_without_prefix:
  assumes "readlink w (parent latest_path) = Inr target"
    and "rename_latest_dir now w latest_path = Inr w'"
    and "\<not> startswith (name (Path target)) ''last_compose_dir''"
  shows "w' = w"
  using assms by (simp add: rename_latest_dir_def Let_def)

lemma promotion_unchanged_when_absent:
  assumes "readlink w (parent latest_path) = Inr target"
    and "rename_latest_dir now w latest_path = Inr w'"
    and "startswith (name (Path target)) ''last_compose_dir''"
    and "\<not> path_exists w (joinpath (parent (parent latest_path)) [name (Path target)])"
  shows "w' = logging_info ''Old real name path %s'' (logging_info ''New real name path %s'' w)"
  using assms by (auto simp: rename_latest_dir_def Let_def)

lemma promotion_renames:
  assumes rl: "readlink w (parent latest_path) = Inr target"
    and run: "rename_latest_dir now w latest_path = Inr w'"
    and sw: "startswith (name (Path target)) ''last_compose_dir''"
    and ex: "path_exists w (joinpath (parent (parent latest_path)) [name (Path target)])"
    and ln: "name (parent latest_path) \<noteq> str_int now @ ''-'' @ name (Path target)"
  shows "\<exists>n. walk (tree w) (fs_path w (joinpath (parent (parent latest_path)) [name (Path target)]))
              = Some n
       \<and> walk (tree w') (fs_path w' (joinpath (parent (parent latest_path))
                                      [str_int now @ ''-'' @ name (Path target)])) = Some n
       \<and> walk (tree w') (fs_path w' (joinpath (parent (parent latest_path)) [name (Path target)])) = None
       \<and> readlink w' (parent latest_path)
           = Inr (path_str (joinpath (parent (parent latest_path))
                              [str_int now @ ''-'' @ name (Path target)]))"
proof -
  let ?old = "name (Path target)"
  let ?new = "str_int now @ ''-'' @ ?old"
  let ?R = "parent (parent latest_path)"
  let ?link = "parent latest_path"
  let ?B = "fs_path w ?R"
  let ?Lk = "fs_path w ?link"
  from sw have "?old \<noteq> []" by (auto simp: startswith_def)
  then have pold: "plain ?old" by (rule name_plain)
  then have pnew: "plain ?new" by (rule stamped_plain)
  have jo: "joinpath ?R [?old] = ?R\<lparr>parts := parts ?R @ [?old]\<rparr>" using pold by (rule joinpath_plain)
  have jn: "joinpath ?R [?new] = ?R\<lparr>parts := parts ?R @ [?new]\<rparr>" using pnew by (rule joinpath_plain)
  have fo: "\<And>v. cwd v = cwd w \<Longrightarrow> fs_path v (joinpath ?R [?old]) = ?B @ [?old]"
    unfolding jo by (simp add: fs_path_def)
  have fn: "\<And>v. cwd v = cwd w \<Longrightarrow> fs_path v (joinpath ?R [?new]) = ?B @ [?new]"
    unfolding jn by (simp add: fs_path_def)
  have fl: "\<And>v. cwd v = cwd w \<Longrightarrow> fs_path v ?link = ?Lk" by (simp add: fs_path_def)
  let ?w0 = "logging_info msg_add_timestamp
               (logging_info ''Old real name path %s'' (logging_info ''New real name path %s'' w))"
  from run rl sw ex obtain wa wb where
    rn: "rename ?w0 (joinpath ?R [?old]) (joinpath ?R [?new]) = Inr wa"
    and ul: "unlink wa ?link = Inr wb"
    and sl: "symlink wb (path_str (joinpath ?R [?new])) ?link = Inr w'"
    by (auto simp: rename_latest_dir_def Let_def bindE_eq_Inr)
  from rn obtain ta where ta: "rename_node (?B @ [?old]) (?B @ [?new]) (tree w) = Inr ta"
    and twa: "tree wa = ta"
    using fo[of ?w0] fn[of ?w0] by (auto simp: rename_def bindE_eq_Inr)
  from ta obtain n where d0: "walk (tree w) (?B @ [?old]) = Some n"
    by (auto simp: rename_node_def split: option.splits)
  from walk_parent_dir[OF d0] obtain bs where B: "walk (tree w) ?B = Some (Dir bs)" by blast
  from rl have lk: "walk (tree w) ?Lk = Some (Symlink target)" by (simp add: readlink_eq_Inr)
  have "butlast (parts latest_path) \<noteq> []"
  proof
    assume "butlast (parts latest_path) = []"
    then have "?Lk = ?B" by (simp add: fs_path_def parent_def)
    with B lk show False by simp
  qed
  then obtain ps l where ps: "butlast (parts latest_path) = ps @ [l]"
    by (metis append_butlast_last_id)
  have Lk: "?Lk = ?B @ [l]" using ps by (simp add: fs_path_def parent_def)
  have "name ?link = l" using ps by (simp add: name_def parent_def)
  with ln have l_new: "l \<noteq> ?new" by simp
  from rename_frame[OF rn] have ca: "cwd wa = cwd w" by simp
  from ul have cb: "cwd wb = cwd w" and tb: "tree wb = alter ?Lk None (tree wa)"
    and la: "walk (tree wa) ?Lk \<noteq> None"
    using ca fl[of wa] by (auto simp: unlink_def split: option.splits node.splits)
  from sl have c': "cwd w' = cwd w"
    and t': "tree w' = alter ?Lk (Some (Symlink (path_str (joinpath ?R [?new])))) (tree wb)"
    and pd: "\<exists>es. walk (tree wb) (butlast ?Lk) = Some (Dir es)"
    using cb fl[of wb] by (auto simp: symlink_def split: option.splits node.splits)
  have neq: "?B @ [?old] \<noteq> ?B @ [?new]" using stamped_differs[of now ?old] by auto
  from rename_node_result[OF ta neq d0] have
    ta_eq: "ta = alter (?B @ [?new]) (Some n) (alter (?B @ [?old]) None (tree w))"
    by simp
  have B1: "\<exists>bs'. walk (alter (?B @ [?old]) None (tree w)) ?B = Some (Dir bs')"
    using walk_alter_parent[OF B, of ?old "[]"] by simp
  have new_a: "walk ta (?B @ [?new]) = Some n"
    unfolding ta_eq using B1 by (auto intro: walk_alter_same)
  have old_a: "walk ta (?B @ [?old]) = None"
    unfolding ta_eq using neq by (simp add: walk_alter_other walk_alter_del)
  have l_old: "l \<noteq> ?old" using la old_a twa Lk by auto
  have new_b: "walk (tree wb) (?B @ [?new]) = Some n"
    unfolding tb twa Lk using new_a l_new by (simp add: walk_alter_other)
  have old_b: "walk (tree wb) (?B @ [?old]) = None"
    unfolding tb twa Lk using old_a l_old by (simp add: walk_alter_other)
  have new': "walk (tree w') (?B @ [?new]) = Some n"
    unfolding t' Lk using new_b l_new by (simp add: walk_alter_other)
  have old': "walk (tree w') (?B @ [?old]) = None"
    unfolding t' Lk using old_b l_old by (simp add: walk_alter_other)
  from pd obtain es' where "walk (tree wb) (butlast ?Lk) = Some (Dir es')" by blast
  then have "walk (tree w') ?Lk = Some (Symlink (path_str (joinpath ?R [?new])))"
    unfolding t' using Lk by (intro walk_alter_same) auto
  then have "readlink w' ?link = Inr (path_str (joinpath ?R [?new]))"
    using fl[OF c'] by (simp add: readlink_eq_Inr)
  with d0 new' old' fn[OF c'] fo[OF c'] fo[of w] show ?thesis by simp
qed

lemma str_int_sample: "str_int 1700000000 = ''1700000000''"
  by (simp add: str_int_def str_nat.simps digit_def)

lemmas promotion_eval =
  rename_latest_dir_def readlink_def fs_path_def parent_def Path_def is_component_def
  name_def startswith_def joinpath.simps Let_def path_exists_def realpath_def SYMLOOP_MAX_def
  rename_def rename_node_def unlink_def symlink_def path_str_def logging_info_def bindE_def
  succeeds_def str_int_sample



lemma write_file_calls: "write_file w p c = Inr w' \<Longrightarrow> calls w' = calls w \<and> logs w' = logs w \<and> cwd w' = cwd w"
  by (auto simp: write_file_def create_file_def split: option.splits node.splits)

lemma copy_calls: "copy w a b = Inr w' \<Longrightarrow> calls w' = calls w \<and> logs w' = logs w \<and> cwd w' = cwd w"
  by (auto simp: copy_def Let_def dest: write_file_calls split: option.splits node.splits if_splits)

lemma check_call_calls: "check_call e c w = Inr w' \<Longrightarrow> calls w' = calls w @ [c] \<and> logs w' = logs w \<and> cwd w' = cwd w"
  by (auto simp: check_call_def split: option.splits)



lemma Path_plain_parts: "plain c \<Longrightarrow> parts (Path c) = [c] \<and> anchor (Path c) = []"
  by (simp add: Path_plain)













lemma sibling_not_prefix: "x \<noteq> y \<Longrightarrow> \<not> prefix (a @ [x]) (a @ [y])"
  by simp

lemma makedirs_node_existing: "walk t p = Some (Dir es) \<Longrightarrow> makedirs_node p t = Inr t"
proof (induction p t arbitrary: es rule: makedirs_node.induct)
  case (3 c cs es')
  then obtain n where n: "map_of es' c = Some n" and w: "walk n cs = Some (Dir es)"
    by (auto split: option.splits)
  from "3.IH"(2)[OF n w] n show ?case by (simp add: update_triv)
qed auto





































section \<open>The rpms manifest: canonical paths (C2)\<close>

text \<open>
  Claim C2. In a variant that survives (any but \<^verbatim>\<open>Minimal\<close>), an artifact entry of the
  rpms manifest whose category has an entry in the path dictionary has, after
  \<^verbatim>\<open>post_processing_rpms_json_metadata\<close>, the path
  \<^verbatim>\<open><variant>/<mapped subpath with the architecture substituted>/<parent directory name>/<file name>\<close>,
  where the parent directory name and the file name are the last two components of the
  original path. The variant, the architecture key and these two components are single
  path components; the architecture substituted is the key under which the entry stands.
\<close>

theorem rpms_path_rewritten:
  assumes run: "post_processing_rpms_json_metadata w latest_path cli_arch = Inr w'"
    and load: "json_load w (joinpath latest_path [''metadata'', cli_arch, ''rpms.json'']) = Inr content"
    and entry: "jlookup [''payload'', ''rpms'', variant, arch, srpm, artifact] content = Some entry"
    and surv: "variant \<noteq> ''Minimal''"
    and cat: "jget ''category'' entry = Inr (JStr category)"
    and tpl: "map_of PATH_DICTIONARY category = Some template"
    and pth: "jget ''path'' entry = Inr (JStr (join_slash (dirs @ [pdir, fname])))"
    and pl: "plain variant" "plain arch" "plain pdir" "plain fname"
  shows "\<exists>content' entry'.
           json_load w' (joinpath latest_path [''metadata'', cli_arch, ''rpms.json'']) = Inr content' \<and>
           jlookup [''payload'', ''rpms'', variant, arch, srpm, artifact] content' = Some entry' \<and>
           jget ''path'' entry' = Inr (JStr (join_slash [variant, format_arch template arch, pdir, fname]))"
proof -
  from run have "(if \<not> path_exists (logging_info ''Post-processing rpms.json'' w)
                       (joinpath latest_path [''metadata'', cli_arch, ''rpms.json''])
        then Inr (logging_warning ''rpms.json is absent'' (logging_info ''Post-processing rpms.json'' w))
        else bindE (json_load (logging_info ''Post-processing rpms.json'' w)
                       (joinpath latest_path [''metadata'', cli_arch, ''rpms.json'']))
              (\<lambda>content. bindE (rpms_content content) (\<lambda>content'.
                 write_file (logging_info ''Post-processing rpms.json'' w)
                   (joinpath latest_path [''metadata'', cli_arch, ''rpms.json'']) (Json content')))) = Inr w'"
    unfolding post_processing_rpms_json_metadata_def Let_def .
  from rewriter_file_level[OF load this]
  obtain content' where c: "rpms_content content = Inr content'"
    and l: "json_load w' (joinpath latest_path [''metadata'', cli_arch, ''rpms.json'']) = Inr content'"
    by blast
  from rpms_content_lookup[OF c entry surv] obtain e' where
    e: "rpms_artifact variant arch entry = Inr e'"
    and le: "jlookup [''payload'', ''rpms'', variant, arch, srpm, artifact] content' = Some e'"
    by blast
  from rpms_artifact_mapped[OF cat tpl pth pl] e
  have "jget ''path'' e' = Inr (JStr (join_slash [variant, format_arch template arch, pdir, fname]))"
    by auto
  with l le show ?thesis by blast
qed

theorem rpms_path_rewritten_witness:
  "\<exists>w' content' entry'.
     post_processing_rpms_json_metadata sample_rpms_world (Path ''/compose'') ''x86_64'' = Inr w' \<and>
     json_load w' (joinpath (Path ''/compose'') [''metadata'', ''x86_64'', ''rpms.json'']) = Inr content' \<and>
     jlookup [''payload'', ''rpms'', ''BaseOS'', ''x86_64'', ''bash-0:5.1-2.src'', ''bash-0:5.1-2.src'']
       content' = Some entry' \<and>
     jget ''path'' entry' = Inr (JStr ''BaseOS/Source/b/bash-5.1-2.src.rpm'')"
proof -
  have "succeeds (post_processing_rpms_json_metadata sample_rpms_world (Path ''/compose'') ''x86_64'')"
    by code_simp
  then obtain w' where
    run: "post_processing_rpms_json_metadata sample_rpms_world (Path ''/compose'') ''x86_64'' = Inr w'"
    by (auto dest: succeeds_Inr)
  have load: "json_load sample_rpms_world
                (joinpath (Path ''/compose'') [''metadata'', ''x86_64'', ''rpms.json'']) = Inr sample_rpms"
    by code_simp
  have entry: "jlookup [''payload'', ''rpms'', ''BaseOS'', ''x86_64'', ''bash-0:5.1-2.src'', ''bash-0:5.1-2.src'']
                 sample_rpms
               = Some (JObj [(''category'', JStr ''source''),
                       (''path'', JStr ''BaseOS/source/tree/Packages/b/bash-5.1-2.src.rpm''),
                       (''sigkey'', JNull)])"
    by code_simp
  have cat: "jget ''category'' (JObj [(''category'', JStr ''source''),
                       (''path'', JStr ''BaseOS/source/tree/Packages/b/bash-5.1-2.src.rpm''),
                       (''sigkey'', JNull)]) = Inr (JStr ''source'')"
    by simp
  have tpl: "map_of PATH_DICTIONARY ''source'' = Some [Lit ''Source'']"
    by (simp add: PATH_DICTIONARY_def)
  have pth: "jget ''path'' (JObj [(''category'', JStr ''source''),
                       (''path'', JStr ''BaseOS/source/tree/Packages/b/bash-5.1-2.src.rpm''),
                       (''sigkey'', JNull)])
             = Inr (JStr (join_slash ([''BaseOS'', ''source'', ''tree'', ''Packages'']
                                       @ [''b'', ''bash-5.1-2.src.rpm''])))"
    by simp
  have pl: "plain ''BaseOS''" "plain ''x86_64''" "plain ''b''" "plain ''bash-5.1-2.src.rpm''"
    by (simp_all add: plain_def)
  from rpms_path_rewritten[OF run load entry _ cat tpl pth pl] run
  show ?thesis by simp
qed

section \<open>Promotion renames a prefixed entry of the results directory (C3)\<close>

text \<open>
  Claim C3, as the code has it. \<^verbatim>\<open>rename_latest_dir\<close> reads the target of the link
  \<^verbatim>\<open>latest_path.parent\<close>, takes the name of that target and asks whether the path of that
  name in the directory that holds the link exists (\<^verbatim>\<open>Path.exists\<close>, which follows a
  link). Let the step return. When the name does not begin with \<^verbatim>\<open>last_compose_dir\<close> the
  world is left as it is. When it does but the path does not exist, two lines are logged
  and nothing else is changed. When it does and the path exists, the entry of that name,
  whatever it is, is renamed to \<^verbatim>\<open><timestamp>-<name>\<close> and the link is made anew with the
  path of the renamed entry as its target; here the link is not itself named
  \<^verbatim>\<open><timestamp>-<name>\<close>.
\<close>

theorem promotion_renames_prefixed_present:
  assumes "readlink w (parent latest_path) = Inr target"
    and "rename_latest_dir now w latest_path = Inr w'"
  shows
    "(\<not> startswith (name (Path target)) ''last_compose_dir'' \<longrightarrow> w' = w)
     \<and> (startswith (name (Path target)) ''last_compose_dir''
        \<and> \<not> path_exists w (joinpath (parent (parent latest_path)) [name (Path target)])
        \<longrightarrow> w' = logging_info ''Old real name path %s'' (logging_info ''New real name path %s'' w))
     \<and> (startswith (name (Path target)) ''last_compose_dir''
        \<and> path_exists w (joinpath (parent (parent latest_path)) [name (Path target)])
        \<and> name (parent latest_path) \<noteq> str_int now @ ''-'' @ name (Path target)
        \<longrightarrow> (\<exists>entry.
              walk (tree w) (fs_path w (joinpath (parent (parent latest_path)) [name (Path target)]))
                = Some entry
              \<and> walk (tree w') (fs_path w' (joinpath (parent (parent latest_path))
                                               [str_int now @ ''-'' @ name (Path target)]))
                  = Some entry
              \<and> walk (tree w') (fs_path w' (joinpath (parent (parent latest_path))
                                               [name (Path target)])) = None
              \<and> readlink w' (parent latest_path)
                  = Inr (path_str (joinpath (parent (parent latest_path))
                                     [str_int now @ ''-'' @ name (Path target)]))))"
proof (intro conjI impI)
  assume "\<not> startswith (name (Path target)) ''last_compose_dir''"
  with assms show "w' = w" by (rule promotion_unchanged_without_prefix)
next
  assume a: "startswith (name (Path target)) ''last_compose_dir''
        \<and> \<not> path_exists w (joinpath (parent (parent latest_path)) [name (Path target)])"
  from promotion_unchanged_when_absent[OF assms conjunct1[OF a] conjunct2[OF a]]
  show "w' = logging_info ''Old real name path %s'' (logging_info ''New real name path %s'' w)" .
next
  assume a: "startswith (name (Path target)) ''last_compose_dir''
        \<and> path_exists w (joinpath (parent (parent latest_path)) [name (Path target)])
        \<and> name (parent latest_path) \<noteq> str_int now @ ''-'' @ name (Path target)"
  then have a1: "startswith (name (Path target)) ''last_compose_dir''"
    and a2: "path_exists w (joinpath (parent (parent latest_path)) [name (Path target)])"
    and a3: "name (parent latest_path) \<noteq> str_int now @ ''-'' @ name (Path target)"
    by simp_all
  from promotion_renames[OF assms a1 a2 a3]
  show "\<exists>entry.
          walk (tree w) (fs_path w (joinpath (parent (parent latest_path)) [name (Path target)]))
            = Some entry
          \<and> walk (tree w') (fs_path w' (joinpath (parent (parent latest_path))
                                           [str_int now @ ''-'' @ name (Path target)]))
              = Some entry
          \<and> walk (tree w') (fs_path w' (joinpath (parent (parent latest_path))
                                           [name (Path target)])) = None
          \<and> readlink w' (parent latest_path)
              = Inr (path_str (joinpath (parent (parent latest_path))
                                 [str_int now @ ''-'' @ name (Path target)]))" .
qed

theorem promotion_renames_prefixed_present_witness:
  "(\<exists>w'. rename_latest_dir 1700000000 sample_results_world
            (Path ''/env/pungi-results/latest-8/compose'') = Inr w'
        \<and> walk (tree w') [''env'', ''pungi-results'', ''1700000000-last_compose_dir'']
            = Some (Dir [(''compose'', Dir [])])
        \<and> walk (tree w') [''env'', ''pungi-results'', ''last_compose_dir''] = None
        \<and> readlink w' (parent (Path ''/env/pungi-results/latest-8/compose''))
            = Inr ''/env/pungi-results/1700000000-last_compose_dir'')
   \<and> rename_latest_dir 1700000000 sample_results_world (Path ''/env/pungi-results/latest-7/compose'')
       = Inr sample_results_world
   \<and> rename_latest_dir 1700000000 sample_dangling_world (Path ''/env/pungi-results/latest-8/compose'')
       = Inr (logging_info ''Old real name path %s''
               (logging_info ''New real name path %s'' sample_dangling_world))
   \<and> (\<exists>w'. rename_latest_dir 1700000000 sample_relinked_world
            (Path ''/env/pungi-results/latest-8/compose'') = Inr w'
        \<and> walk (tree w') [''env'', ''pungi-results'', ''1700000000-last_compose_dir'']
            = Some (Symlink ''../pungi-results/real_dir'')
        \<and> walk (tree w') [''env'', ''pungi-results'', ''last_compose_dir''] = None
        \<and> readlink w' (parent (Path ''/env/pungi-results/latest-8/compose''))
            = Inr ''/env/pungi-results/1700000000-last_compose_dir'')"
proof -
  let ?L8 = "Path ''/env/pungi-results/latest-8/compose''"
  let ?L7 = "Path ''/env/pungi-results/latest-7/compose''"
  have n8: "name (Path ''last_compose_dir'') = ''last_compose_dir''"
    by (simp add: promotion_eval)
  have p8: "startswith ''last_compose_dir'' ''last_compose_dir''" by (simp add: startswith_def)
  have l8: "name (parent ?L8) \<noteq> ''1700000000-last_compose_dir''"
    by (simp add: promotion_eval)
  have f8: "fs_path v (joinpath (parent (parent ?L8)) [''1700000000-last_compose_dir''])
              = [''env'', ''pungi-results'', ''1700000000-last_compose_dir'']"
       "fs_path v (joinpath (parent (parent ?L8)) [''last_compose_dir''])
              = [''env'', ''pungi-results'', ''last_compose_dir'']"
       "path_str (joinpath (parent (parent ?L8)) [''1700000000-last_compose_dir''])
              = ''/env/pungi-results/1700000000-last_compose_dir''" for v
    by (simp_all add: promotion_eval)

  have "succeeds (rename_latest_dir 1700000000 sample_results_world ?L8)"
    by (simp add: promotion_eval sample_results_world_def)
  then obtain w8 where r8: "rename_latest_dir 1700000000 sample_results_world ?L8 = Inr w8"
    by (auto dest: succeeds_Inr)
  have rl8: "readlink sample_results_world (parent ?L8) = Inr ''last_compose_dir''"
    by (simp add: promotion_eval sample_results_world_def)
  have e8: "path_exists sample_results_world
              (joinpath (parent (parent ?L8)) [name (Path ''last_compose_dir'')])"
    by (simp add: promotion_eval sample_results_world_def)
  have d8: "walk (tree sample_results_world) [''env'', ''pungi-results'', ''last_compose_dir'']
            = Some (Dir [(''compose'', Dir [])])"
    by (simp add: sample_results_world_def)
  from promotion_renames_prefixed_present[OF rl8 r8] e8 p8 l8
  have A: "walk (tree w8) [''env'', ''pungi-results'', ''1700000000-last_compose_dir'']
            = Some (Dir [(''compose'', Dir [])])
        \<and> walk (tree w8) [''env'', ''pungi-results'', ''last_compose_dir''] = None
        \<and> readlink w8 (parent ?L8) = Inr ''/env/pungi-results/1700000000-last_compose_dir''"
    unfolding n8 str_int_sample by (auto simp: f8 d8)

  have "succeeds (rename_latest_dir 1700000000 sample_results_world ?L7)"
    by (simp add: promotion_eval sample_results_world_def)
  then obtain w7 where r7: "rename_latest_dir 1700000000 sample_results_world ?L7 = Inr w7"
    by (auto dest: succeeds_Inr)
  have rl7: "readlink sample_results_world (parent ?L7) = Inr ''stable-foo''"
    by (simp add: promotion_eval sample_results_world_def)
  have p7: "\<not> startswith (name (Path ''stable-foo'')) ''last_compose_dir''"
    by (simp add: promotion_eval)
  from promotion_renames_prefixed_present[OF rl7 r7] p7 have "w7 = sample_results_world"
    by blast
  with r7 have B: "rename_latest_dir 1700000000 sample_results_world ?L7 = Inr sample_results_world"
    by simp

  have "succeeds (rename_latest_dir 1700000000 sample_dangling_world ?L8)"
    by (simp add: promotion_eval sample_dangling_world_def)
  then obtain wd where rd: "rename_latest_dir 1700000000 sample_dangling_world ?L8 = Inr wd"
    by (auto dest: succeeds_Inr)
  have rld: "readlink sample_dangling_world (parent ?L8) = Inr ''last_compose_dir''"
    by (simp add: promotion_eval sample_dangling_world_def)
  have ed: "\<not> path_exists sample_dangling_world
              (joinpath (parent (parent ?L8)) [name (Path ''last_compose_dir'')])"
    by (simp add: promotion_eval sample_dangling_world_def)
  from promotion_renames_prefixed_present[OF rld rd] ed p8
  have "wd = logging_info ''Old real name path %s''
               (logging_info ''New real name path %s'' sample_dangling_world)"
    unfolding n8 by blast
  with rd have C: "rename_latest_dir 1700000000 sample_dangling_world ?L8
       = Inr (logging_info ''Old real name path %s''
               (logging_info ''New real name path %s'' sample_dangling_world))" by simp

  have "succeeds (rename_latest_dir 1700000000 sample_relinked_world ?L8)"
    by (simp add: promotion_eval sample_relinked_world_def)
  then obtain wr where rr: "rename_latest_dir 1700000000 sample_relinked_world ?L8 = Inr wr"
    by (auto dest: succeeds_Inr)
  have rlr: "readlink sample_relinked_world (parent ?L8) = Inr ''last_compose_dir''"
    by (simp add: promotion_eval sample_relinked_world_def)
  have er: "path_exists sample_relinked_world
              (joinpath (parent (parent ?L8)) [name (Path ''last_compose_dir'')])"
    by (simp add: promotion_eval sample_relinked_world_def)
  have dr: "walk (tree sample_relinked_world) [''env'', ''pungi-results'', ''last_compose_dir'']
            = Some (Symlink ''../pungi-results/real_dir'')"
    by (simp add: sample_relinked_world_def)
  from promotion_renames_prefixed_present[OF rlr rr] er p8 l8
  have D: "walk (tree wr) [''env'', ''pungi-results'', ''1700000000-last_compose_dir'']
            = Some (Symlink ''../pungi-results/real_dir'')
        \<and> walk (tree wr) [''env'', ''pungi-results'', ''last_compose_dir''] = None
        \<and> readlink wr (parent ?L8) = Inr ''/env/pungi-results/1700000000-last_compose_dir''"
    unfolding n8 str_int_sample by (auto simp: f8 dr)
  from A r8 B C D rr show ?thesis by blast
qed

text \<open>
  The claim as it was stated fails where the link names a directory of another place:
  the name of the target, \<^verbatim>\<open>last_compose_dir\<close>, begins with the prefix and the directory
  \<^verbatim>\<open>/data/last_compose_dir\<close> exists, yet nothing is renamed and the link is not repointed.
\<close>

theorem promotion_prefix_alone_counterexample:
  "startswith (name (Path ''/data/last_compose_dir'')) ''last_compose_dir''
   \<and> readlink sample_elsewhere_world (parent (Path ''/env/pungi-results/latest-8/compose''))
       = Inr ''/data/last_compose_dir''
   \<and> walk (tree sample_elsewhere_world) [''data'', ''last_compose_dir'']
       = Some (Dir [(''compose'', Dir [])])
   \<and> rename_latest_dir 1700000000 sample_elsewhere_world
        (Path ''/env/pungi-results/latest-8/compose'')
       = Inr (sample_elsewhere_world
               \<lparr>logs := [Info ''New real name path %s'', Info ''Old real name path %s'']\<rparr>)"
  by (simp add: promotion_eval sample_elsewhere_world_def)


section \<open>The tree reorganisation run twice (C4)\<close>





section \<open>Collecting the ISO files (C6)\<close>





section \<open>Injecting updateinfo (C7)\<close>





section \<open>Appending the checksums in order (C8)\<close>




section \<open>Unrecognised categories pass through (C9)\<close>

text \<open>
  Claim C9. A category (rpms manifest) or a path type (composeinfo manifest) without an
  entry in the path dictionary is not an error and is not rewritten: the rewriting of the
  entry returns the entry as it is, and after the rewriter has run on the manifest file
  the entry, in a variant that is kept, stands unchanged at its place.
\<close>

theorem unmapped_category_passed_through:
  "(jget ''category'' entry = Inr (JStr category) \<and> map_of PATH_DICTIONARY category = None
      \<longrightarrow> rpms_artifact variant arch entry = Inr entry)
   \<and> (map_of PATH_DICTIONARY path_type = None \<and> jitems path_data = Inr arches
      \<longrightarrow> composeinfo_path_type variant path_type path_data = Inr path_data)
   \<and> (post_processing_rpms_json_metadata w latest_path cli_arch = Inr w'
      \<and> json_load w (joinpath latest_path [''metadata'', cli_arch, ''rpms.json'']) = Inr content
      \<and> jlookup [''payload'', ''rpms'', variant, arch, srpm, artifact] content = Some entry
      \<and> variant \<noteq> ''Minimal''
      \<and> jget ''category'' entry = Inr (JStr category) \<and> map_of PATH_DICTIONARY category = None
      \<longrightarrow> (\<exists>content'.
            json_load w' (joinpath latest_path [''metadata'', cli_arch, ''rpms.json'']) = Inr content' \<and>
            jlookup [''payload'', ''rpms'', variant, arch, srpm, artifact] content' = Some entry))
   \<and> (post_processing_compose_info_json_metadata wc latest_path cli_arch = Inr wc'
      \<and> json_load wc (joinpath latest_path [''metadata'', cli_arch, ''composeinfo.json'']) = Inr contentc
      \<and> jlookup [''payload'', ''variants'', variant, ''paths'', path_type] contentc = Some path_data
      \<and> variant \<noteq> ''Minimal''
      \<and> map_of PATH_DICTIONARY path_type = None
      \<longrightarrow> (\<exists>content'.
            json_load wc' (joinpath latest_path [''metadata'', cli_arch, ''composeinfo.json''])
              = Inr content' \<and>
            jlookup [''payload'', ''variants'', variant, ''paths'', path_type] content'
              = Some path_data))"
proof (intro conjI impI)
  assume "jget ''category'' entry = Inr (JStr category) \<and> map_of PATH_DICTIONARY category = None"
  then show "rpms_artifact variant arch entry = Inr entry"
    by (intro rpms_artifact_unmapped[of _ "JStr category"]) simp_all
next
  assume "map_of PATH_DICTIONARY path_type = None \<and> jitems path_data = Inr arches"
  then show "composeinfo_path_type variant path_type path_data = Inr path_data"
    by (auto intro: composeinfo_path_type_unmapped)
next
  let ?p = "joinpath latest_path [''metadata'', cli_arch, ''rpms.json'']"
  assume a: "post_processing_rpms_json_metadata w latest_path cli_arch = Inr w'
      \<and> json_load w ?p = Inr content
      \<and> jlookup [''payload'', ''rpms'', variant, arch, srpm, artifact] content = Some entry
      \<and> variant \<noteq> ''Minimal''
      \<and> jget ''category'' entry = Inr (JStr category) \<and> map_of PATH_DICTIONARY category = None"
  then have run: "(if \<not> path_exists (logging_info ''Post-processing rpms.json'' w) ?p
        then Inr (logging_warning ''rpms.json is absent'' (logging_info ''Post-processing rpms.json'' w))
        else bindE (json_load (logging_info ''Post-processing rpms.json'' w) ?p)
              (\<lambda>content. bindE (rpms_content content) (\<lambda>content'.
                 write_file (logging_info ''Post-processing rpms.json'' w) ?p (Json content')))) = Inr w'"
    unfolding post_processing_rpms_json_metadata_def Let_def by simp
  from a have load: "json_load w ?p = Inr content" by simp
  from rewriter_file_level[OF load run] obtain content' where
    c: "rpms_content content = Inr content'" and l: "json_load w' ?p = Inr content'" by blast
  from a have "jlookup [''payload'', ''rpms'', variant, arch, srpm, artifact] content = Some entry"
    and "variant \<noteq> ''Minimal''" by simp_all
  from rpms_content_lookup[OF c this] obtain e' where
    e: "rpms_artifact variant arch entry = Inr e'"
    and le: "jlookup [''payload'', ''rpms'', variant, arch, srpm, artifact] content' = Some e'"
    by blast
  from a have "rpms_artifact variant arch entry = Inr entry"
    by (intro rpms_artifact_unmapped[of _ "JStr category"]) simp_all
  with e le l
  show "\<exists>content'. json_load w' ?p = Inr content' \<and>
          jlookup [''payload'', ''rpms'', variant, arch, srpm, artifact] content' = Some entry"
    by auto
next
  let ?p = "joinpath latest_path [''metadata'', cli_arch, ''composeinfo.json'']"
  assume a: "post_processing_compose_info_json_metadata wc latest_path cli_arch = Inr wc'
      \<and> json_load wc ?p = Inr contentc
      \<and> jlookup [''payload'', ''variants'', variant, ''paths'', path_type] contentc = Some path_data
      \<and> variant \<noteq> ''Minimal''
      \<and> map_of PATH_DICTIONARY path_type = None"
  then have run: "(if \<not> path_exists (logging_info ''Post-processing composeinfo.json'' wc) ?p
        then Inr (logging_warning ''composeinfo.json is absent''
                   (logging_info ''Post-processing composeinfo.json'' wc))
        else bindE (json_load (logging_info ''Post-processing composeinfo.json'' wc) ?p)
              (\<lambda>content. bindE (composeinfo_content content) (\<lambda>content'.
                 write_file (logging_info ''Post-processing composeinfo.json'' wc) ?p (Json content'))))
        = Inr wc'"
    unfolding post_processing_compose_info_json_metadata_def Let_def by simp
  from a have load: "json_load wc ?p = Inr contentc" by simp
  from rewriter_file_level[OF load run] obtain content' where
    c: "composeinfo_content contentc = Inr content'" and l: "json_load wc' ?p = Inr content'" by blast
  from a have "jlookup [''payload'', ''variants'', variant, ''paths'', path_type] contentc = Some path_data"
    and "variant \<noteq> ''Minimal''" by simp_all
  from composeinfo_content_lookup[OF c this] obtain pd' where
    e: "composeinfo_path_type variant path_type path_data = Inr pd'"
    and le: "jlookup [''payload'', ''variants'', variant, ''paths'', path_type] content' = Some pd'"
    by blast
  from e a have "pd' = path_data"
    by (auto simp: composeinfo_path_type_def bindE_eq_Inr map_items_id jitems_eq_Inr)
  with le l
  show "\<exists>content'. json_load wc' ?p = Inr content' \<and>
          jlookup [''payload'', ''variants'', variant, ''paths'', path_type] content' = Some path_data"
    by auto
qed

theorem unmapped_category_passed_through_witness:
  "rpms_artifact ''BaseOS'' ''x86_64''
       (JObj [(''category'', JStr ''binary''),
              (''path'', JStr ''BaseOS/x86_64/os/Packages/b/bash-5.1-2.x86_64.rpm''),
              (''sigkey'', JNull)])
     = Inr (JObj [(''category'', JStr ''binary''),
              (''path'', JStr ''BaseOS/x86_64/os/Packages/b/bash-5.1-2.x86_64.rpm''),
              (''sigkey'', JNull)])
   \<and> composeinfo_path_type ''BaseOS'' ''os_tree'' (JObj [(''x86_64'', JStr ''BaseOS/x86_64/os'')])
     = Inr (JObj [(''x86_64'', JStr ''BaseOS/x86_64/os'')])
   \<and> (\<exists>w' content'.
        post_processing_rpms_json_metadata sample_rpms_world (Path ''/compose'') ''x86_64'' = Inr w' \<and>
        json_load w' (joinpath (Path ''/compose'') [''metadata'', ''x86_64'', ''rpms.json'']) = Inr content' \<and>
        jlookup [''payload'', ''rpms'', ''BaseOS'', ''x86_64'', ''bash-0:5.1-2.src'', ''bash-0:5.1-2.x86_64'']
          content'
        = Some (JObj [(''category'', JStr ''binary''),
              (''path'', JStr ''BaseOS/x86_64/os/Packages/b/bash-5.1-2.x86_64.rpm''),
              (''sigkey'', JNull)]))
   \<and> (\<exists>w' content'.
        post_processing_compose_info_json_metadata sample_composeinfo_world (Path ''/compose'') ''x86_64''
          = Inr w' \<and>
        json_load w' (joinpath (Path ''/compose'') [''metadata'', ''x86_64'', ''composeinfo.json''])
          = Inr content' \<and>
        jlookup [''payload'', ''variants'', ''BaseOS'', ''paths'', ''os_tree''] content'
        = Some (JObj [(''x86_64'', JStr ''BaseOS/x86_64/os'')]))"
proof -
  let ?e = "JObj [(''category'', JStr ''binary''),
              (''path'', JStr ''BaseOS/x86_64/os/Packages/b/bash-5.1-2.x86_64.rpm''),
              (''sigkey'', JNull)]"
  let ?pd = "JObj [(''x86_64'', JStr ''BaseOS/x86_64/os'')]"
  have "succeeds (post_processing_rpms_json_metadata sample_rpms_world (Path ''/compose'') ''x86_64'')"
    by code_simp
  then obtain w' where
    run: "post_processing_rpms_json_metadata sample_rpms_world (Path ''/compose'') ''x86_64'' = Inr w'"
    by (auto dest: succeeds_Inr)
  have "succeeds (post_processing_compose_info_json_metadata sample_composeinfo_world
                    (Path ''/compose'') ''x86_64'')"
    by code_simp
  then obtain wc' where
    runc: "post_processing_compose_info_json_metadata sample_composeinfo_world
             (Path ''/compose'') ''x86_64'' = Inr wc'"
    by (auto dest: succeeds_Inr)
  have load: "json_load sample_rpms_world
                (joinpath (Path ''/compose'') [''metadata'', ''x86_64'', ''rpms.json'']) = Inr sample_rpms"
    by code_simp
  have loadc: "json_load sample_composeinfo_world
                (joinpath (Path ''/compose'') [''metadata'', ''x86_64'', ''composeinfo.json''])
               = Inr sample_composeinfo"
    by code_simp
  have entry: "jlookup [''payload'', ''rpms'', ''BaseOS'', ''x86_64'', ''bash-0:5.1-2.src'',
                 ''bash-0:5.1-2.x86_64''] sample_rpms = Some ?e"
    by code_simp
  have pd: "jlookup [''payload'', ''variants'', ''BaseOS'', ''paths'', ''os_tree''] sample_composeinfo
            = Some ?pd"
    by code_simp
  have cat: "jget ''category'' ?e = Inr (JStr ''binary'')" by simp
  have un: "map_of PATH_DICTIONARY ''binary'' = None" by (simp add: PATH_DICTIONARY_def)
  have unc: "map_of PATH_DICTIONARY ''os_tree'' = None" by (simp add: PATH_DICTIONARY_def)
  have its: "jitems ?pd = Inr [(''x86_64'', JStr ''BaseOS/x86_64/os'')]" by simp
  have ne: "''BaseOS'' \<noteq> ''Minimal''" by simp
  from unmapped_category_passed_through[where entry = ?e and category = "''binary''"
      and variant = "''BaseOS''" and arch = "''x86_64''" and path_type = "''os_tree''"
      and path_data = ?pd and arches = "[(''x86_64'', JStr ''BaseOS/x86_64/os'')]"
      and w = sample_rpms_world and w' = w' and latest_path = "Path ''/compose''"
      and cli_arch = "''x86_64''" and content = sample_rpms and srpm = "''bash-0:5.1-2.src''"
      and artifact = "''bash-0:5.1-2.x86_64''" and wc = sample_composeinfo_world and wc' = wc'
      and contentc = sample_composeinfo]
    run runc load loadc entry pd cat un unc its ne
  show ?thesis by simp
qed

end
